theory Spec2Isabelle
  imports Complex_Main "HOL-Library.Word"
begin

section \<open>JavaScript strings\<close>

text \<open>
  A JavaScript string is a sequence of UTF-16 code units; \<open>length\<close>, \<open>===\<close>, \<open>trim\<close>
  and the regular expressions of \<^verbatim>\<open>src/index.js\<close> all work on code units. The labels
  of the bot contain emoji and Arabic letters, so they are written as code units.
\<close>

type_synonym jsstring = "16 word list"

definition ascii :: "string \<Rightarrow> jsstring" where
  "ascii s = map of_char s"

text \<open>
  The class \<^verbatim>\<open>\s\<close> of a regular expression, which is also what \<^verbatim>\<open>trim\<close> and
  \<^verbatim>\<open>parseFloat\<close> skip: WhiteSpace and LineTerminator of ECMAScript.
\<close>

definition isWhiteSpace :: "16 word \<Rightarrow> bool" where
  "isWhiteSpace c \<longleftrightarrow>
     c = 0x9 \<or> c = 0xA \<or> c = 0xB \<or> c = 0xC \<or> c = 0xD \<or> c = 0x20 \<or> c = 0xA0 \<or>
     c = 0x1680 \<or> (0x2000 \<le> c \<and> c \<le> 0x200A) \<or> c = 0x2028 \<or> c = 0x2029 \<or>
     c = 0x202F \<or> c = 0x205F \<or> c = 0x3000 \<or> c = 0xFEFF"

text \<open>\<^verbatim>\<open>\d\<close>: the ten ASCII digits.\<close>

definition isDigit :: "16 word \<Rightarrow> bool" where
  "isDigit c \<longleftrightarrow> 0x30 \<le> c \<and> c \<le> 0x39"

text \<open>\<^verbatim>\<open>s.trim()\<close>\<close>

definition trim :: "jsstring \<Rightarrow> jsstring" where
  "trim s = rev (dropWhile isWhiteSpace (rev (dropWhile isWhiteSpace s)))"

text \<open>\<^verbatim>\<open>s.startsWith(p)\<close>\<close>

definition startsWith :: "jsstring \<Rightarrow> jsstring \<Rightarrow> bool" where
  "startsWith s p \<longleftrightarrow> take (length p) s = p"

section \<open>JavaScript numbers\<close>

text \<open>
  A Number is an IEEE-754 double: a finite value (a rational here), an infinity or NaN.
  The sign of zero is not kept: nothing in the program divides by an amount or prints
  a zero. Every arithmetic result is the exact result rounded to the nearest double,
  ties to even, which is \<open>toDouble\<close>.
\<close>

datatype jsnum = Finite rat | PosInf | NegInf | NaN

text \<open>\<open>floorlog2 n\<close> is the position of the highest bit of \<open>n\<close>, for \<open>n \<ge> 1\<close>.\<close>

function floorlog2 :: "int \<Rightarrow> int" where
  "floorlog2 n = (if n < 2 then 0 else 1 + floorlog2 (n div 2))"
  by pat_completeness auto
termination
  by (relation "measure nat") auto

declare floorlog2.simps [simp del]

text \<open>The binary exponent of a positive rational: \<open>2 ^ binade x \<le> x < 2 ^ (binade x + 1)\<close>.\<close>

definition binade :: "rat \<Rightarrow> int" where
  "binade x = (let (a, b) = quotient_of x; k = floorlog2 a - floorlog2 b
               in if 2 powi k \<le> x then k else k - 1)"

definition round_half_even :: "rat \<Rightarrow> int" where
  "round_half_even x = (let f = \<lfloor>x\<rfloor>; d = x - of_int f
     in if d < 1 / 2 then f else if 1 / 2 < d then f + 1
        else if even f then f else f + 1)"

text \<open>
  Rounding to a double: 53 significant bits in the binade of the value, the exponent
  not below \<open>-1022\<close> (below it the doubles are the multiples of \<open>2 ^ -1074\<close>), and an
  infinity from \<open>2 ^ 1024\<close> on.
\<close>

definition toDouble :: "rat \<Rightarrow> jsnum" where
  "toDouble x = (if x = 0 then Finite 0 else
     let a = \<bar>x\<bar>; e = max (binade a) (- 1022); q = 2 powi (e - 52);
         r = of_int (round_half_even (a / q)) * q
     in if 2 ^ 1024 \<le> r then (if 0 < x then PosInf else NegInf)
        else Finite (if 0 < x then r else - r))"

text \<open>\<^verbatim>\<open>a + b\<close> on Numbers.\<close>

fun js_add :: "jsnum \<Rightarrow> jsnum \<Rightarrow> jsnum" where
  "js_add (Finite a) (Finite b) = toDouble (a + b)"
| "js_add NaN _ = NaN"
| "js_add _ NaN = NaN"
| "js_add PosInf NegInf = NaN"
| "js_add NegInf PosInf = NaN"
| "js_add PosInf _ = PosInf"
| "js_add _ PosInf = PosInf"
| "js_add NegInf _ = NegInf"
| "js_add _ NegInf = NegInf"

text \<open>\<^verbatim>\<open>a <= b\<close> on Numbers: false when either side is NaN.\<close>

fun js_le :: "jsnum \<Rightarrow> jsnum \<Rightarrow> bool" where
  "js_le (Finite a) (Finite b) \<longleftrightarrow> a \<le> b"
| "js_le NaN _ \<longleftrightarrow> False"
| "js_le _ NaN \<longleftrightarrow> False"
| "js_le NegInf _ \<longleftrightarrow> True"
| "js_le _ PosInf \<longleftrightarrow> True"
| "js_le PosInf _ \<longleftrightarrow> False"
| "js_le _ NegInf \<longleftrightarrow> False"

definition isNaN :: "jsnum \<Rightarrow> bool" where
  "isNaN n \<longleftrightarrow> n = NaN"

text \<open>\<^verbatim>\<open>undefined\<close> in arithmetic is NaN.\<close>

definition toNumber :: "jsnum option \<Rightarrow> jsnum" where
  "toNumber v = (case v of None \<Rightarrow> NaN | Some n \<Rightarrow> n)"

subsection \<open>parseFloat\<close>

text \<open>
  \<^verbatim>\<open>parseFloat(s)\<close> skips leading white space, takes the longest prefix of the rest that
  is a StrDecimalLiteral (a sign, then \<^verbatim>\<open>Infinity\<close> or digits with an optional fraction
  and an optional exponent) and returns its value as a double; NaN when no prefix is
  one. What follows the literal is ignored.
\<close>

definition digitVal :: "16 word \<Rightarrow> int" where
  "digitVal c = uint c - 48"

definition digitsValue :: "jsstring \<Rightarrow> int" where
  "digitsValue ds = foldl (\<lambda>a c. 10 * a + digitVal c) 0 ds"

text \<open>A sign, if there is one: whether it is a minus, and the rest.\<close>

definition takeSign :: "jsstring \<Rightarrow> bool \<times> jsstring" where
  "takeSign s = (case s of [] \<Rightarrow> (False, s)
     | c # r \<Rightarrow> if c = 0x2D then (True, r) else if c = 0x2B then (False, r) else (False, s))"

text \<open>
  The exponent of an ExponentPart at the head of the string: \<^verbatim>\<open>e\<close> or \<^verbatim>\<open>E\<close>, a sign,
  at least one digit. Without a digit there is no ExponentPart and the literal has
  ended before the \<^verbatim>\<open>e\<close>.
\<close>

definition exponentPart :: "jsstring \<Rightarrow> int" where
  "exponentPart s = (case s of [] \<Rightarrow> 0
     | c # r \<Rightarrow>
        if c = 0x65 \<or> c = 0x45 then
          (let (neg, r1) = takeSign r; ds = takeWhile isDigit r1
           in if ds = [] then 0 else if neg then - digitsValue ds else digitsValue ds)
        else 0)"

definition parseFloat :: "jsstring \<Rightarrow> jsnum" where
  "parseFloat s =
     (let (neg, t1) = takeSign (dropWhile isWhiteSpace s)
      in if startsWith t1 (ascii ''Infinity'') then (if neg then NegInf else PosInf)
         else
           let ip = takeWhile isDigit t1; t2 = dropWhile isDigit t1;
               (fp, t3) = (case t2 of [] \<Rightarrow> ([], t2)
                  | c # r \<Rightarrow> if c = 0x2E then (takeWhile isDigit r, dropWhile isDigit r)
                             else ([], t2))
           in if ip = [] \<and> fp = [] then NaN
              else
                let mv = of_int (digitsValue (ip @ fp)) *
                           10 powi (exponentPart t3 - int (length fp))
                in toDouble (if neg then - mv else mv))"

section \<open>Validator\<close>

text \<open>
  \<^verbatim>\<open>
  function validateAmount(amount) {
    const num = parseFloat(amount);
    return !isNaN(num) && num >= 1 && num <= 50000;
  }
  \<close>
\<close>

definition validateAmount :: "jsstring \<Rightarrow> bool" where
  "validateAmount amount =
     (let num = parseFloat amount
      in \<not> isNaN num \<and> js_le (Finite 1) num \<and> js_le num (Finite 50000))"

text \<open>
  \<^verbatim>\<open>
  function validatePhone(phone) {
    const phoneRegex = /^\+?[1-9]\d{1,14}$/;
    return phoneRegex.test(phone.replace(/\s/g, ''));
  }
  \<close>
  \<open>phoneRegex_test\<close> is the anchored match: \<^verbatim>\<open>\+?\<close> takes a plus when there is one
  (without it \<^verbatim>\<open>[1-9]\<close> would have to match the plus), then one digit from 1 to 9,
  then 1 to 14 digits up to the end of the string.
\<close>

definition phoneRegex_test :: "jsstring \<Rightarrow> bool" where
  "phoneRegex_test s =
     (let r = (case s of [] \<Rightarrow> s | c # t \<Rightarrow> if c = 0x2B then t else s)
      in case r of [] \<Rightarrow> False
         | d # ds \<Rightarrow> 0x31 \<le> d \<and> d \<le> 0x39 \<and>
                    1 \<le> length ds \<and> length ds \<le> 14 \<and> list_all isDigit ds)"

definition validatePhone :: "jsstring \<Rightarrow> bool" where
  "validatePhone phone = phoneRegex_test (filter (\<lambda>c. \<not> isWhiteSpace c) phone)"

text \<open>
  \<^verbatim>\<open>
  function validateBusinessName(name) {
    return name && name.trim().length >= 2 && name.trim().length <= 100;
  }
  \<close>
\<close>

definition validateBusinessName :: "jsstring \<Rightarrow> bool" where
  "validateBusinessName name \<longleftrightarrow>
     name \<noteq> [] \<and> 2 \<le> length (trim name) \<and> length (trim name) \<le> 100"

section \<open>Identifiers\<close>

text \<open>
  Number-to-string conversion of an integer, as a template literal or \<^verbatim>\<open>'BIZ_' + chatId\<close>
  does it: decimal digits, a minus sign for a negative value. (Chat identifiers and
  millisecond timestamps are integers far below \<open>10 ^ 21\<close>, where JavaScript would
  switch to exponent notation.)
\<close>

function decimal :: "int \<Rightarrow> jsstring" where
  "decimal n = (if n < 10 then [of_int n + 0x30]
                else decimal (n div 10) @ [of_int (n mod 10) + 0x30])"
  by pat_completeness auto
termination
  by (relation "measure nat") auto

declare decimal.simps [simp del]

definition numToString :: "int \<Rightarrow> jsstring" where
  "numToString n = (if n < 0 then 0x2D # decimal (- n) else decimal n)"

text \<open>\<^verbatim>\<open>crypto.randomBytes(4).toString('hex')\<close>: the four bytes, most significant first,
  as eight lower-case hexadecimal digits.\<close>

definition hexDigit :: "int \<Rightarrow> 16 word" where
  "hexDigit d = (if d < 10 then of_int d + 0x30 else of_int d + 0x57)"

definition toHex :: "32 word \<Rightarrow> jsstring" where
  "toHex w = map (\<lambda>i. hexDigit ((uint w div 16 ^ i) mod 16)) [7, 6, 5, 4, 3, 2, 1, 0]"

text \<open>
  \<^verbatim>\<open>
  function generatePaymentId() {
    const timestamp = Date.now();
    const random = crypto.randomBytes(4).toString('hex');
    return `DAFI_${timestamp}_${random}`;
  }
  \<close>
  The clock and the random bytes are inputs of the model.
\<close>

definition generatePaymentId :: "int \<Rightarrow> 32 word \<Rightarrow> jsstring" where
  "generatePaymentId timestamp random =
     ascii ''DAFI_'' @ numToString timestamp @ ascii ''_'' @ toHex random"

text \<open>\<^verbatim>\<open>'BIZ_' + chatId\<close>\<close>

definition businessIdOf :: "int \<Rightarrow> jsstring" where
  "businessIdOf chatId = ascii ''BIZ_'' @ numToString chatId"

section \<open>Parsed JSON\<close>

text \<open>
  The body of a request after \<^verbatim>\<open>bodyParser.json\<close>, and the data of a gateway response.
  \<open>None\<close> of type \<open>json option\<close> is \<^verbatim>\<open>undefined\<close>.
\<close>

datatype json = JNull | JBool bool | JNum jsnum | JStr jsstring
  | JArr "json list" | JObj "(jsstring \<times> json) list"

text \<open>
  Reading a property. Of the names the program reads (\<^verbatim>\<open>tran_ref\<close>, \<^verbatim>\<open>payment_result\<close>,
  \<^verbatim>\<open>cart_id\<close>, \<^verbatim>\<open>response_status\<close>, \<^verbatim>\<open>response_message\<close>, \<^verbatim>\<open>redirect_url\<close>) only an
  object can have one; on a string, a number, a boolean or an array they are
  \<^verbatim>\<open>undefined\<close>. Reading a property of \<^verbatim>\<open>null\<close> throws, which the callers below handle
  before they call \<open>getProp\<close>.
\<close>

fun getProp :: "json \<Rightarrow> jsstring \<Rightarrow> json option" where
  "getProp (JObj kvs) k = map_of kvs k"
| "getProp _ k = None"

fun truthy :: "json \<Rightarrow> bool" where
  "truthy JNull \<longleftrightarrow> False"
| "truthy (JBool b) \<longleftrightarrow> b"
| "truthy (JNum n) \<longleftrightarrow> n \<noteq> NaN \<and> n \<noteq> Finite 0"
| "truthy (JStr s) \<longleftrightarrow> s \<noteq> []"
| "truthy (JArr _) \<longleftrightarrow> True"
| "truthy (JObj _) \<longleftrightarrow> True"

definition truthyOpt :: "json option \<Rightarrow> bool" where
  "truthyOpt v = (case v of None \<Rightarrow> False | Some j \<Rightarrow> truthy j)"

text \<open>\<^verbatim>\<open>v?.k\<close> and, behind a truthiness test of \<open>v\<close>, \<^verbatim>\<open>v.k\<close>.\<close>

definition getPropOpt :: "json option \<Rightarrow> jsstring \<Rightarrow> json option" where
  "getPropOpt v k = (case v of None \<Rightarrow> None | Some JNull \<Rightarrow> None | Some j \<Rightarrow> getProp j k)"

text \<open>
  A template literal applies ToString to the values it interpolates. On a parsed JSON
  value this throws a TypeError in one case: an object with a member of its own named
  \<^verbatim>\<open>toString\<close>. The member is not a function, so it is passed over, and \<^verbatim>\<open>valueOf\<close>
  (the object's own, not a function either, or the inherited one, which returns the
  object) gives no primitive. Any other object is \<^verbatim>\<open>[object Object]\<close>. An array joins
  the strings of its elements, so it throws when one of them does. \<^verbatim>\<open>undefined\<close> is
  the string \<^verbatim>\<open>undefined\<close>.
\<close>

fun toStringThrows :: "json \<Rightarrow> bool" where
  "toStringThrows (JObj kvs) \<longleftrightarrow> map_of kvs (ascii ''toString'') \<noteq> None"
| "toStringThrows (JArr xs) \<longleftrightarrow> list_ex toStringThrows xs"
| "toStringThrows JNull \<longleftrightarrow> False"
| "toStringThrows (JBool b) \<longleftrightarrow> False"
| "toStringThrows (JNum n) \<longleftrightarrow> False"
| "toStringThrows (JStr v) \<longleftrightarrow> False"

definition templateThrows :: "json option \<Rightarrow> bool" where
  "templateThrows v = (case v of None \<Rightarrow> False | Some j \<Rightarrow> toStringThrows j)"

section \<open>Data model\<close>

text \<open>The languages of the table \<^verbatim>\<open>lang\<close>, and the values the code gives \<^verbatim>\<open>user.step\<close>.\<close>

datatype language = Ar | En

datatype step = Step_start | Step_register_name | Step_register_phone
  | Step_payment_amount | Step_payment_description | Step_main

text \<open>\<^verbatim>\<open>user.tempData\<close>: an object with at most the keys \<^verbatim>\<open>businessName\<close> and \<^verbatim>\<open>amount\<close>.\<close>

record tempData =
  businessName :: "jsstring option"
  td_amount :: "jsnum option"

definition emptyTempData :: tempData where
  "emptyTempData = \<lparr>businessName = None, td_amount = None\<rparr>"

text \<open>Times are milliseconds since the epoch.\<close>

record user =
  u_id :: int
  language :: language
  step :: step
  tempData :: tempData
  u_createdAt :: int
  lastActivity :: int

record business =
  b_id :: jsstring
  ownerId :: int
  name :: "jsstring option"
  phone :: jsstring
  b_createdAt :: int
  totalSales :: jsnum
  todaySales :: jsnum
  transactionCount :: jsnum

datatype status = Pending | Completed | Failed | Expired

record payment =
  p_id :: jsstring
  merchantId :: int
  amount :: "jsnum option"
  description :: jsstring
  status :: status
  p_createdAt :: int
  expiresAt :: "int option"
  transactionRef :: "json option"
  completedAt :: "int option"
  failureReason :: "json option"

text \<open>The three maps of the process: \<^verbatim>\<open>users\<close>, \<^verbatim>\<open>businesses\<close>, \<^verbatim>\<open>payments\<close>
  (\<^verbatim>\<open>sessions\<close> is never used).\<close>

record state =
  users :: "int \<rightharpoonup> user"
  businesses :: "jsstring \<rightharpoonup> business"
  payments :: "jsstring \<rightharpoonup> payment"

definition initial :: state where
  "initial = \<lparr>users = Map.empty, businesses = Map.empty, payments = Map.empty\<rparr>"

text \<open>The environment variables the handlers read.\<close>

record config =
  WEBHOOK_URL :: "jsstring option"
  PAYTABS_SERVER_KEY :: "jsstring option"
  PAYTABS_PROFILE_ID :: "jsstring option"

definition envSet :: "jsstring option \<Rightarrow> bool" where
  "envSet v = (case v of None \<Rightarrow> False | Some s \<Rightarrow> s \<noteq> [])"

definition envString :: "jsstring option \<Rightarrow> jsstring" where
  "envString v = (case v of None \<Rightarrow> ascii ''undefined'' | Some s \<Rightarrow> s)"

section \<open>Labels and outbound messages\<close>

text \<open>The two literals of the language keyboard.\<close>

definition lit_arabic :: jsstring where
  "lit_arabic = [0xD83C, 0xDDF8, 0xD83C, 0xDDE6, 0x20, 0x627, 0x644, 0x639, 0x631, 0x628,
     0x64A, 0x629]"

definition lit_english :: jsstring where
  "lit_english = [0xD83C, 0xDDFA, 0xD83C, 0xDDF8, 0x20] @ ascii ''English''"

text \<open>
  The entries of \<^verbatim>\<open>lang\<close> that incoming text is compared with. Each label begins
  with an emoji and a space: the memo U+1F4DD (the surrogates D83D DCDD), the credit
  card U+1F4B3 (D83D DCB3), the bar chart U+1F4CA (D83D DCCA), the gear U+2699 with the
  variation selector U+FE0F, the question mark U+2753. The language literals begin with
  the flags of Saudi Arabia (D83C DDF8 D83C DDE6) and of the United States
  (D83C DDFA D83C DDF8).
\<close>

datatype menukey = Business_register | Create_payment | View_dashboard | Settings | Help

fun lang_label :: "language \<Rightarrow> menukey \<Rightarrow> jsstring" where
  "lang_label Ar Business_register =
     [0xD83D, 0xDCDD, 0x20, 0x62A, 0x633, 0x62C, 0x64A, 0x644, 0x20, 0x639, 0x645, 0x644,
      0x643, 0x20, 0x627, 0x644, 0x62A, 0x62C, 0x627, 0x631, 0x64A]"
| "lang_label Ar Create_payment =
     [0xD83D, 0xDCB3, 0x20, 0x625, 0x646, 0x634, 0x627, 0x621, 0x20, 0x631, 0x627, 0x628,
      0x637, 0x20, 0x62F, 0x641, 0x639]"
| "lang_label Ar View_dashboard =
     [0xD83D, 0xDCCA, 0x20, 0x644, 0x648, 0x62D, 0x629, 0x20, 0x627, 0x644, 0x645, 0x628,
      0x64A, 0x639, 0x627, 0x62A]"
| "lang_label Ar Settings =
     [0x2699, 0xFE0F, 0x20, 0x627, 0x644, 0x625, 0x639, 0x62F, 0x627, 0x62F, 0x627, 0x62A]"
| "lang_label Ar Help =
     [0x2753, 0x20, 0x627, 0x644, 0x645, 0x633, 0x627, 0x639, 0x62F, 0x629]"
| "lang_label En Business_register = [0xD83D, 0xDCDD, 0x20] @ ascii ''Register Business''"
| "lang_label En Create_payment = [0xD83D, 0xDCB3, 0x20] @ ascii ''Create Payment Link''"
| "lang_label En View_dashboard = [0xD83D, 0xDCCA, 0x20] @ ascii ''Sales Dashboard''"
| "lang_label En Settings = [0x2699, 0xFE0F, 0x20] @ ascii ''Settings''"
| "lang_label En Help = [0x2753, 0x20] @ ascii ''Help''"

text \<open>The entries of \<^verbatim>\<open>lang\<close> that are only sent.\<close>

datatype langkey = Welcome | Choose_lang | Enter_business_name | Enter_business_phone
  | Enter_amount | Enter_description | Invalid_amount | Invalid_phone | Register_first

text \<open>
  The text of an outbound message: an entry of \<^verbatim>\<open>lang\<close>, or one of the literals and
  templates of \<^verbatim>\<open>src/index.js\<close> with the values it interpolates. The rendering of the
  values into characters is not modelled.
  \<^item> \<open>T_business_registered l n\<close>: \<^verbatim>\<open>l.business_registered\<close>, then the name \<open>n\<close> or,
    for \<open>None\<close>, \<^verbatim>\<open>'Your business'\<close>;
  \<^item> \<open>T_payment_created l amount description paymentUrl\<close>;
  \<^item> \<open>T_dashboard l name\<close>: the dashboard of the business (its sums over the ledger are
    not modelled);
  \<^item> \<open>T_error\<close>: the English sentence of \<^verbatim>\<open>handleBotError\<close>, whose test
    \<^verbatim>\<open>l.language === 'ar'\<close> reads a key the table does not have;
  \<^item> \<open>T_payment_received l amount description tran_ref\<close>,
    \<open>T_payment_failed l amount description\<close>: the notifications of the callback.
\<close>

datatype msgtext =
    T_lang language langkey
  | T_start_prompt
  | T_invalid_name
  | T_business_registered language "jsstring option"
  | T_payment_created language "jsnum option" jsstring jsstring
  | T_dashboard language "jsstring option"
  | T_help language
  | T_error
  | T_payment_received language "jsnum option" jsstring "json option"
  | T_payment_failed language "jsnum option" jsstring

text \<open>\<^verbatim>\<open>reply_markup\<close>: a keyboard (its rows, and \<^verbatim>\<open>one_time_keyboard\<close>) or
  \<^verbatim>\<open>remove_keyboard\<close>.\<close>

datatype markup = Keyboard "jsstring list list" bool | Remove_keyboard

definition getMainMenu :: "language \<Rightarrow> markup" where
  "getMainMenu l = Keyboard
     ([lang_label l Business_register, lang_label l Create_payment] #
      [lang_label l View_dashboard, lang_label l Settings] #
      [lang_label l Help] # []) False"

definition getLanguageKeyboard :: markup where
  "getLanguageKeyboard = Keyboard ([lit_arabic, lit_english] # []) True"

text \<open>A call of \<^verbatim>\<open>bot.sendMessage\<close> or \<^verbatim>\<open>bot.sendPhoto\<close> (the photo is the decoded QR image).\<close>

datatype send =
    SendMessage int msgtext "markup option"
  | SendPhoto int "8 word list" msgtext "markup option"

section \<open>Conversation engine\<close>

text \<open>
  What a handler reads from outside the three maps: the clock, the random bytes of the
  identifier, the result of \<^verbatim>\<open>generateQR\<close> (the decoded image, \<open>None\<close> when the
  encoder failed and \<^verbatim>\<open>generateQR\<close> returned \<^verbatim>\<open>null\<close>), and whether the awaited
  send of the handler is rejected.
  \<open>now\<close> is the reading of \<^verbatim>\<open>new Date()\<close> in \<^verbatim>\<open>getUser\<close> and in the business record;
  the three readings that make a payment record are kept apart: \<open>idTime\<close> is
  \<^verbatim>\<open>Date.now()\<close> in \<^verbatim>\<open>generatePaymentId\<close>, \<open>createdTime\<close> is \<^verbatim>\<open>new Date()\<close> of
  \<^verbatim>\<open>createdAt\<close>, \<open>expiryTime\<close> is \<^verbatim>\<open>Date.now()\<close> of \<^verbatim>\<open>expiresAt\<close>.
\<close>

record env =
  now :: int
  idTime :: int
  randomBytes :: "32 word"
  createdTime :: int
  expiryTime :: int
  qrImage :: "8 word list option"
  sendFails :: bool

text \<open>
  \<^verbatim>\<open>
  function getUser(chatId) {
    if (!users.has(chatId)) {
      users.set(chatId, { id: chatId, language: 'en', step: 'start', tempData: {},
                          createdAt: new Date(), lastActivity: new Date() });
    }
    const user = users.get(chatId);
    user.lastActivity = new Date();
    return user;
  }
  \<close>
  The user object is shared with the map: the model returns it and the map that holds it;
  a later assignment to a field of \<^verbatim>\<open>user\<close> is \<open>setUser\<close>.
\<close>

definition getUser :: "int \<Rightarrow> int \<Rightarrow> state \<Rightarrow> user \<times> state" where
  "getUser t chatId s =
     (let u0 = (case users s chatId of
                  None \<Rightarrow> \<lparr>u_id = chatId, language = En, step = Step_start,
                            tempData = emptyTempData, u_createdAt = t, lastActivity = t\<rparr>
                | Some u \<Rightarrow> u);
          u = u0\<lparr>lastActivity := t\<rparr>
      in (u, s\<lparr>users := (users s)(chatId \<mapsto> u)\<rparr>))"

definition setUser :: "int \<Rightarrow> user \<Rightarrow> state \<Rightarrow> state" where
  "setUser chatId u s = s\<lparr>users := (users s)(chatId \<mapsto> u)\<rparr>"

text \<open>
  \<^verbatim>\<open>handleBotError\<close> sends the error sentence with the main menu of the user's language.
  An awaited send that is rejected throws into the \<^verbatim>\<open>catch\<close> of the handler, which
  calls it; every awaited send of the message handler is followed by \<^verbatim>\<open>return\<close>.
\<close>

definition handleBotError :: "int \<Rightarrow> language \<Rightarrow> send" where
  "handleBotError chatId l = SendMessage chatId T_error (Some (getMainMenu l))"

definition awaitSend :: "env \<Rightarrow> int \<Rightarrow> language \<Rightarrow> send \<Rightarrow> send list" where
  "awaitSend e chatId l m = (if sendFails e then [m, handleBotError chatId l] else [m])"

text \<open>The branch \<^verbatim>\<open>if (user.step === 'register_phone')\<close>, lines 326 to 353.\<close>

definition register_phone_branch ::
  "env \<Rightarrow> int \<Rightarrow> jsstring \<Rightarrow> user \<Rightarrow> state \<Rightarrow> state \<times> send list" where
  "register_phone_branch e chatId text user s =
     (let l = language user in
      if \<not> validatePhone text then
        (s, awaitSend e chatId l (SendMessage chatId (T_lang l Invalid_phone) None))
      else
        let businessId = businessIdOf chatId;
            s1 = s\<lparr>businesses := (businesses s)(businessId \<mapsto>
                   \<lparr>b_id = businessId, ownerId = chatId,
                    name = businessName (tempData user), phone = trim text,
                    b_createdAt = now e, totalSales = Finite 0, todaySales = Finite 0,
                    transactionCount = Finite 0\<rparr>)\<rparr>;
            user1 = user\<lparr>step := Step_main, tempData := emptyTempData\<rparr>
        in (setUser chatId user1 s1,
            awaitSend e chatId l
              (SendMessage chatId
                 (T_business_registered l (businessName (tempData user1)))
                 (Some (getMainMenu l)))))"

text \<open>The branch \<^verbatim>\<open>if (user.step === 'payment_description')\<close>, lines 385 to 428.\<close>

definition payment_description_branch ::
  "config \<Rightarrow> env \<Rightarrow> int \<Rightarrow> jsstring \<Rightarrow> user \<Rightarrow> state \<Rightarrow> state \<times> send list" where
  "payment_description_branch cfg e chatId text user s =
     (let l = language user;
          paymentId = generatePaymentId (idTime e) (randomBytes e);
          amount = td_amount (tempData user);
          description = trim text;
          s1 = s\<lparr>payments := (payments s)(paymentId \<mapsto>
                 \<lparr>p_id = paymentId, merchantId = chatId, amount = amount,
                  description = description, status = Pending,
                  p_createdAt = createdTime e,
                  expiresAt = Some (expiryTime e + 24 * 60 * 60 * 1000),
                  transactionRef = None, completedAt = None, failureReason = None\<rparr>)\<rparr>;
          paymentUrl = envString (WEBHOOK_URL cfg) @ ascii ''/pay/'' @ paymentId;
          user1 = user\<lparr>step := Step_main, tempData := emptyTempData\<rparr>;
          message = T_payment_created l amount description paymentUrl
      in (setUser chatId user1 s1,
          awaitSend e chatId l
            (case qrImage e of
               Some qrBuffer \<Rightarrow> SendPhoto chatId qrBuffer message (Some (getMainMenu l))
             | None \<Rightarrow> SendMessage chatId message (Some (getMainMenu l)))))"

text \<open>
  The listener \<^verbatim>\<open>bot.on('message', ...)\<close>, lines 273 to 490, is a sequence of
  \<^verbatim>\<open>if (...) { ...; return; }\<close> statements under the comments \<^verbatim>\<open>// Language selection\<close>,
  \<^verbatim>\<open>// Business registration flow\<close>, \<^verbatim>\<open>// Payment creation flow\<close>, \<^verbatim>\<open>// Dashboard\<close>,
  \<^verbatim>\<open>// Help\<close> and \<^verbatim>\<open>// Settings\<close>. The model has one function for each part, in the order
  of the source, each falling through to the next; it gives the new maps and the sends
  made, in order. \<open>user\<close> is the object \<^verbatim>\<open>getUser\<close> returned, \<open>s\<close> the maps that hold it,
  and \<open>l\<close>, the table \<^verbatim>\<open>lang[user.language]\<close> read at the top of the handler, is
  \<open>language user\<close>.
\<close>

text \<open>Lines 430 to 485: dashboard, help, settings; any other text falls off the end.\<close>

definition menu_views ::
  "env \<Rightarrow> int \<Rightarrow> jsstring \<Rightarrow> user \<Rightarrow> state \<Rightarrow> state \<times> send list" where
  "menu_views e chatId text user s =
     (let l = language user in
      if text = lang_label l View_dashboard then
        (case businesses s (businessIdOf chatId) of
           None \<Rightarrow>
             (s, awaitSend e chatId l
                (SendMessage chatId (T_lang l Register_first) (Some (getMainMenu l))))
         | Some business \<Rightarrow>
             (s, awaitSend e chatId l
                (SendMessage chatId (T_dashboard l (name business))
                   (Some (getMainMenu l)))))
      else if text = lang_label l Help then
        (s, awaitSend e chatId l (SendMessage chatId (T_help l) (Some (getMainMenu l))))
      else if text = lang_label l Settings then
        (s, awaitSend e chatId l
           (SendMessage chatId (T_lang En Choose_lang) (Some getLanguageKeyboard)))
      else (s, []))"

text \<open>Lines 355 to 428: the payment creation flow.\<close>

definition payment_creation_flow ::
  "config \<Rightarrow> env \<Rightarrow> int \<Rightarrow> jsstring \<Rightarrow> user \<Rightarrow> state \<Rightarrow> state \<times> send list" where
  "payment_creation_flow cfg e chatId text user s =
     (let l = language user in
      if text = lang_label l Create_payment then
        (if businesses s (businessIdOf chatId) = None then
           (s, awaitSend e chatId l
              (SendMessage chatId (T_lang l Register_first) (Some (getMainMenu l))))
         else
           (setUser chatId (user\<lparr>step := Step_payment_amount\<rparr>) s,
            awaitSend e chatId l
              (SendMessage chatId (T_lang l Enter_amount) (Some Remove_keyboard))))
      else if step user = Step_payment_amount then
        (if \<not> validateAmount text then
           (s, awaitSend e chatId l (SendMessage chatId (T_lang l Invalid_amount) None))
         else
           (setUser chatId
              (user\<lparr>tempData := (tempData user)\<lparr>td_amount := Some (parseFloat text)\<rparr>,
                     step := Step_payment_description\<rparr>) s,
            awaitSend e chatId l (SendMessage chatId (T_lang l Enter_description) None)))
      else if step user = Step_payment_description then
        payment_description_branch cfg e chatId text user s
      else menu_views e chatId text user s)"

text \<open>Lines 304 to 353: the business registration flow.\<close>

definition business_registration_flow ::
  "config \<Rightarrow> env \<Rightarrow> int \<Rightarrow> jsstring \<Rightarrow> user \<Rightarrow> state \<Rightarrow> state \<times> send list" where
  "business_registration_flow cfg e chatId text user s =
     (let l = language user in
      if text = lang_label l Business_register then
        (setUser chatId (user\<lparr>step := Step_register_name\<rparr>) s,
         awaitSend e chatId l
           (SendMessage chatId (T_lang l Enter_business_name) (Some Remove_keyboard)))
      else if step user = Step_register_name then
        (if \<not> validateBusinessName text then
           (s, awaitSend e chatId l (SendMessage chatId T_invalid_name None))
         else
           (setUser chatId
              (user\<lparr>tempData := (tempData user)\<lparr>businessName := Some (trim text)\<rparr>,
                     step := Step_register_phone\<rparr>) s,
            awaitSend e chatId l (SendMessage chatId (T_lang l Enter_business_phone) None)))
      else if step user = Step_register_phone then
        register_phone_branch e chatId text user s
      else payment_creation_flow cfg e chatId text user s)"

text \<open>
  Lines 273 to 302: the guard \<^verbatim>\<open>if (!text || text.startsWith('/')) return;\<close>, \<^verbatim>\<open>getUser\<close>,
  and the language selection. \<open>msg_text\<close> is \<^verbatim>\<open>msg.text\<close>, \<open>None\<close> for a message
  without text.
\<close>

definition on_message ::
  "config \<Rightarrow> env \<Rightarrow> int \<Rightarrow> jsstring option \<Rightarrow> state \<Rightarrow> state \<times> send list" where
  "on_message cfg e chatId msg_text s =
     (case msg_text of None \<Rightarrow> (s, [])
      | Some text \<Rightarrow>
        if text = [] \<or> startsWith text (ascii ''/'') then (s, [])
        else
          let (user, s1) = getUser (now e) chatId s in
          if text = lit_arabic then
            (setUser chatId (user\<lparr>language := Ar\<rparr>) s1,
             awaitSend e chatId Ar
               (SendMessage chatId (T_lang Ar Welcome) (Some (getMainMenu Ar))))
          else if text = lit_english then
            (setUser chatId (user\<lparr>language := En\<rparr>) s1,
             awaitSend e chatId En
               (SendMessage chatId (T_lang En Welcome) (Some (getMainMenu En))))
          else business_registration_flow cfg e chatId text user s1)"

text \<open>
  \<^verbatim>\<open>bot.onText(/\/start/, ...)\<close>, lines 260 to 270: it creates the session when there is
  none and sends the language keyboard; a rejected send is only logged.
\<close>

definition on_start :: "env \<Rightarrow> int \<Rightarrow> state \<Rightarrow> state \<times> send list" where
  "on_start e chatId s =
     (let (user, s1) = getUser (now e) chatId s
      in (s1, [SendMessage chatId T_start_prompt (Some getLanguageKeyboard)]))"

section \<open>Link resolver\<close>

text \<open>What \<^verbatim>\<open>createPayTabsPayment\<close> does: it throws, or returns the data of the response.\<close>

datatype gateway = Gateway_throws | Gateway_returns "json option"

text \<open>The pages of \<^verbatim>\<open>GET /pay/:paymentId\<close>.\<close>

datatype page =
    Page_not_found
  | Page_processed status
  | Page_expired
  | Page_demo "jsnum option" jsstring
  | Page_redirect json
  | Page_payment_error
  | Page_unavailable

text \<open>
  \<^verbatim>\<open>app.get('/pay/:paymentId', ...)\<close>, lines 493 to 587. \<open>t\<close> is the reading of
  \<^verbatim>\<open>new Date()\<close> in the expiry test. Reading \<^verbatim>\<open>redirect_url\<close> of a response without data
  throws into the \<^verbatim>\<open>catch\<close>, as a failure of the gateway does.
\<close>

definition pay_page ::
  "config \<Rightarrow> int \<Rightarrow> gateway \<Rightarrow> jsstring \<Rightarrow> state \<Rightarrow> state \<times> page" where
  "pay_page cfg t gw paymentId s =
     (case payments s paymentId of
        None \<Rightarrow> (s, Page_not_found)
      | Some payment \<Rightarrow>
          if status payment \<noteq> Pending then (s, Page_processed (status payment))
          else if (case expiresAt payment of None \<Rightarrow> False | Some x \<Rightarrow> x < t) then
            (s\<lparr>payments := (payments s)(paymentId \<mapsto> payment\<lparr>status := Expired\<rparr>)\<rparr>,
             Page_expired)
          else if \<not> envSet (PAYTABS_SERVER_KEY cfg) \<or> \<not> envSet (PAYTABS_PROFILE_ID cfg) then
            (s, Page_demo (amount payment) (description payment))
          else
            (case gw of
               Gateway_throws \<Rightarrow> (s, Page_unavailable)
             | Gateway_returns None \<Rightarrow> (s, Page_unavailable)
             | Gateway_returns (Some JNull) \<Rightarrow> (s, Page_unavailable)
             | Gateway_returns (Some paytabsResponse) \<Rightarrow>
                 (case getProp paytabsResponse (ascii ''redirect_url'') of
                    None \<Rightarrow> (s, Page_payment_error)
                  | Some url \<Rightarrow>
                      if truthy url then (s, Page_redirect url)
                      else (s, Page_payment_error))))"

section \<open>Settlement handler\<close>

datatype cb_response = Cb_not_found | Cb_ok | Cb_error

text \<open>\<^verbatim>\<open>payments.get(cart_id)\<close>: the keys of the map are strings.\<close>

definition lookupPayment :: "state \<Rightarrow> json option \<Rightarrow> (jsstring \<times> payment) option" where
  "lookupPayment s cart_id =
     (case cart_id of
        Some (JStr k) \<Rightarrow> (case payments s k of None \<Rightarrow> None | Some p \<Rightarrow> Some (k, p))
      | _ \<Rightarrow> None)"

text \<open>
  \<^verbatim>\<open>app.post('/paytabs/callback', ...)\<close>, lines 590 to 636. \<open>t\<close> is the reading of the clock,
  \<open>body\<close> is \<^verbatim>\<open>req.body\<close>. Destructuring \<^verbatim>\<open>null\<close> throws into the \<^verbatim>\<open>catch\<close>. So does,
  in the success branch, the template literal of line 608 when \<^verbatim>\<open>tran_ref\<close> has no
  string: by then the record is written (lines 601 to 604) and \<^verbatim>\<open>getUserLang\<close> has run
  (line 607), while the notification (line 610) and the counters of the business (lines
  613 to 620) are still to come. The other values of the two templates are numbers and
  strings. The sends are not awaited.
\<close>

definition paytabs_callback ::
  "int \<Rightarrow> json \<Rightarrow> state \<Rightarrow> state \<times> cb_response \<times> send list" where
  "paytabs_callback t body s =
     (if body = JNull then (s, Cb_error, [])
      else
        let tran_ref = getProp body (ascii ''tran_ref'');
            payment_result = getProp body (ascii ''payment_result'');
            cart_id = getProp body (ascii ''cart_id'')
        in case lookupPayment s cart_id of
             None \<Rightarrow> (s, Cb_not_found, [])
           | Some (k, payment) \<Rightarrow>
               if truthyOpt payment_result \<and>
                  getPropOpt payment_result (ascii ''response_status'') = Some (JStr (ascii ''A''))
               then
                 let payment1 = payment\<lparr>status := Completed, transactionRef := tran_ref,
                                        completedAt := Some t\<rparr>;
                     s1 = s\<lparr>payments := (payments s)(k \<mapsto> payment1)\<rparr>;
                     (user, s2) = getUser t (merchantId payment1) s1
                 in if templateThrows tran_ref then (s2, Cb_error, [])
                    else
                      let message = T_payment_received (language user) (amount payment1)
                                      (description payment1) tran_ref;
                          businessId = businessIdOf (merchantId payment1);
                          s3 = (case businesses s2 businessId of
                                  None \<Rightarrow> s2
                                | Some business \<Rightarrow>
                                    s2\<lparr>businesses := (businesses s2)(businessId \<mapsto>
                                      business\<lparr>totalSales :=
                                                 js_add (totalSales business)
                                                   (toNumber (amount payment1)),
                                               todaySales :=
                                                 js_add (todaySales business)
                                                   (toNumber (amount payment1)),
                                               transactionCount :=
                                                 js_add (transactionCount business)
                                                   (Finite 1)\<rparr>)\<rparr>)
                      in (s3, Cb_ok, [SendMessage (merchantId payment1) message None])
               else
                 let response_message = getPropOpt payment_result (ascii ''response_message'');
                     payment1 = payment\<lparr>status := Failed,
                                  failureReason :=
                                    (if truthyOpt response_message then response_message
                                     else Some (JStr (ascii ''Unknown error'')))\<rparr>;
                     s1 = s\<lparr>payments := (payments s)(k \<mapsto> payment1)\<rparr>;
                     (user, s2) = getUser t (merchantId payment1) s1
                 in (s2, Cb_ok,
                     [SendMessage (merchantId payment1)
                        (T_payment_failed (language user) (amount payment1)
                           (description payment1)) None]))"

section \<open>The process\<close>

text \<open>
  The inbound events. A chat message reaches the \<^verbatim>\<open>message\<close> listener and then, when
  its text matches \<^verbatim>\<open>/\/start/\<close> (it contains \<^verbatim>\<open>/start\<close>), the start handler.
\<close>

fun contains :: "jsstring \<Rightarrow> jsstring \<Rightarrow> bool" where
  "contains [] p \<longleftrightarrow> p = []"
| "contains (c # s) p \<longleftrightarrow> startsWith (c # s) p \<or> contains s p"

text \<open>
  What one chat message does: the new maps, the sends of the \<^verbatim>\<open>message\<close> listener and
  the sends of the start handler. (Each list is in the order of the calls of its
  handler; nothing is said of the order between the two.)
\<close>

definition on_update ::
  "config \<Rightarrow> env \<Rightarrow> int \<Rightarrow> jsstring option \<Rightarrow> state \<Rightarrow> state \<times> send list \<times> send list"
  where
  "on_update cfg e chatId msg_text s =
     (let (s1, sent) = on_message cfg e chatId msg_text s
      in case msg_text of
           None \<Rightarrow> (s1, sent, [])
         | Some text \<Rightarrow>
             if contains text (ascii ''/start'') then
               (let (s2, prompt) = on_start e chatId s1 in (s2, sent, prompt))
             else (s1, sent, []))"

datatype event =
    Message env int "jsstring option"
  | Visit int gateway jsstring
  | Callback int json

fun process :: "config \<Rightarrow> event \<Rightarrow> state \<Rightarrow> state" where
  "process cfg (Message e chatId msg_text) s = fst (on_update cfg e chatId msg_text s)"
| "process cfg (Visit t gw paymentId) s = fst (pay_page cfg t gw paymentId s)"
| "process cfg (Callback t body) s = fst (paytabs_callback t body s)"

inductive reachable :: "config \<Rightarrow> state \<Rightarrow> bool" for cfg :: config where
  reachable_initial: "reachable cfg initial"
| reachable_process: "reachable cfg s \<Longrightarrow> reachable cfg (process cfg ev s)"

section \<open>Properties of sessions and records\<close>

text \<open>
  The idle steps: \<^verbatim>\<open>'start'\<close>, the step of a new session, and \<^verbatim>\<open>'main'\<close>, the step a
  finished flow returns to. No step test of the message handler matches them.
\<close>

definition idle :: "step \<Rightarrow> bool" where
  "idle st \<longleftrightarrow> st = Step_start \<or> st = Step_main"

text \<open>Every session in an idle step has an empty \<^verbatim>\<open>tempData\<close>.\<close>

definition buffer_inv :: "state \<Rightarrow> bool" where
  "buffer_inv s \<longleftrightarrow>
     (\<forall>c u. users s c = Some u \<longrightarrow> idle (step u) \<longrightarrow> tempData u = emptyTempData)"

text \<open>The settlement fields of a record.\<close>

definition unsettled :: "payment \<Rightarrow> bool" where
  "unsettled p \<longleftrightarrow> transactionRef p = None \<and> completedAt p = None \<and> failureReason p = None"

text \<open>Every pending record of the ledger has no settlement field.\<close>

definition pending_inv :: "state \<Rightarrow> bool" where
  "pending_inv s \<longleftrightarrow>
     (\<forall>k p. payments s k = Some p \<longrightarrow> status p = Pending \<longrightarrow> unsettled p)"

section \<open>A session of one merchant\<close>

text \<open>
  The states of the process while chat 7 registers a business, asks for 250 SAR and is
  paid: the concrete inputs of the examples below. No gateway credentials are set, the
  QR encoder fails and every send succeeds.
\<close>

definition cfg0 :: config where
  "cfg0 = \<lparr>WEBHOOK_URL = Some (ascii ''https://dafi.example''),
           PAYTABS_SERVER_KEY = None, PAYTABS_PROFILE_ID = None\<rparr>"

definition env0 :: "int \<Rightarrow> env" where
  "env0 t = \<lparr>now = t, idTime = t, randomBytes = 0x0A1B2C3D, createdTime = t,
            expiryTime = t, qrImage = None, sendFails = False\<rparr>"

definition say :: "int \<Rightarrow> jsstring \<Rightarrow> event" where
  "say t text = Message (env0 t) 7 (Some text)"

definition session :: "step \<Rightarrow> tempData \<Rightarrow> int \<Rightarrow> user" where
  "session st td t = \<lparr>u_id = 7, language = En, step = st, tempData = td,
                      u_createdAt = 2, lastActivity = t\<rparr>"

definition acme :: "jsnum \<Rightarrow> jsnum \<Rightarrow> jsnum \<Rightarrow> business" where
  "acme sales today n = \<lparr>b_id = ascii ''BIZ_7'', ownerId = 7,
     name = Some (ascii ''Acme Foods''), phone = ascii ''+966501234567'', b_createdAt = 4,
     totalSales = sales, todaySales = today, transactionCount = n\<rparr>"

definition pid0 :: jsstring where
  "pid0 = ascii ''DAFI_7_0a1b2c3d''"

definition coffee :: payment where
  "coffee = \<lparr>p_id = pid0, merchantId = 7, amount = Some (Finite 250),
     description = ascii ''Coffee order'', status = Pending, p_createdAt = 7,
     expiresAt = Some 86400007, transactionRef = None, completedAt = None,
     failureReason = None\<rparr>"

definition successBody :: json where
  "successBody = JObj [(ascii ''tran_ref'', JStr (ascii ''TST0001'')),
     (ascii ''payment_result'', JObj [(ascii ''response_status'', JStr (ascii ''A''))]),
     (ascii ''cart_id'', JStr pid0)]"

definition declinedBody :: json where
  "declinedBody = JObj [(ascii ''tran_ref'', JStr (ascii ''TST0002'')),
     (ascii ''payment_result'',
        JObj [(ascii ''response_status'', JStr (ascii ''D'')),
              (ascii ''response_message'', JStr (ascii ''Declined''))]),
     (ascii ''cart_id'', JStr pid0)]"


text \<open>After the register label: the name is awaited.\<close>

definition st_name :: state where
  "st_name = \<lparr>users = [7 \<mapsto> session Step_register_name emptyTempData 2],
     businesses = Map.empty, payments = Map.empty\<rparr>"

text \<open>After \<^verbatim>\<open>Acme Foods\<close>: the phone is awaited.\<close>

definition st_phone :: state where
  "st_phone = \<lparr>users = [7 \<mapsto> session Step_register_phone
       \<lparr>businessName = Some (ascii ''Acme Foods''), td_amount = None\<rparr> 3],
     businesses = Map.empty, payments = Map.empty\<rparr>"

text \<open>After \<^verbatim>\<open>+966501234567\<close>: the business is registered.\<close>

definition st_registered :: state where
  "st_registered = \<lparr>users = [7 \<mapsto> session Step_main emptyTempData 4],
     businesses = [ascii ''BIZ_7'' \<mapsto> acme (Finite 0) (Finite 0) (Finite 0)],
     payments = Map.empty\<rparr>"

text \<open>After the payment label: the amount is awaited.\<close>

definition st_amount :: state where
  "st_amount = \<lparr>users = [7 \<mapsto> session Step_payment_amount emptyTempData 5],
     businesses = [ascii ''BIZ_7'' \<mapsto> acme (Finite 0) (Finite 0) (Finite 0)],
     payments = Map.empty\<rparr>"

text \<open>After \<^verbatim>\<open>250\<close>: the description is awaited.\<close>

definition st_description :: state where
  "st_description = \<lparr>users = [7 \<mapsto> session Step_payment_description
       \<lparr>businessName = None, td_amount = Some (Finite 250)\<rparr> 6],
     businesses = [ascii ''BIZ_7'' \<mapsto> acme (Finite 0) (Finite 0) (Finite 0)],
     payments = Map.empty\<rparr>"

text \<open>After \<^verbatim>\<open>Coffee order\<close>: the record is pending.\<close>

definition st_pending :: state where
  "st_pending = \<lparr>users = [7 \<mapsto> session Step_main emptyTempData 7],
     businesses = [ascii ''BIZ_7'' \<mapsto> acme (Finite 0) (Finite 0) (Finite 0)],
     payments = [pid0 \<mapsto> coffee]\<rparr>"

text \<open>
  The merchant asks for a second payment in the millisecond of the first: after the
  payment label and after \<^verbatim>\<open>300\<close>. With the description \<^verbatim>\<open>Tea\<close>, the same reading of the
  clock and the same four random bytes, the record \<open>tea\<close> gets the identifier of the
  first.
\<close>

definition st_amount_again :: state where
  "st_amount_again = \<lparr>users = [7 \<mapsto> session Step_payment_amount emptyTempData 7],
     businesses = [ascii ''BIZ_7'' \<mapsto> acme (Finite 0) (Finite 0) (Finite 0)],
     payments = [pid0 \<mapsto> coffee]\<rparr>"

definition st_description_again :: state where
  "st_description_again = \<lparr>users = [7 \<mapsto> session Step_payment_description
       \<lparr>businessName = None, td_amount = Some (Finite 300)\<rparr> 7],
     businesses = [ascii ''BIZ_7'' \<mapsto> acme (Finite 0) (Finite 0) (Finite 0)],
     payments = [pid0 \<mapsto> coffee]\<rparr>"

definition tea :: payment where
  "tea = \<lparr>p_id = pid0, merchantId = 7, amount = Some (Finite 300),
     description = ascii ''Tea'', status = Pending, p_createdAt = 7,
     expiresAt = Some 86400007, transactionRef = None, completedAt = None,
     failureReason = None\<rparr>"

text \<open>After the gateway's success notification: the record is completed.\<close>

definition st_completed :: state where
  "st_completed = \<lparr>users = [7 \<mapsto> session Step_main emptyTempData 8],
     businesses = [ascii ''BIZ_7'' \<mapsto> acme (Finite 250) (Finite 250) (Finite 1)],
     payments = [pid0 \<mapsto> coffee\<lparr>status := Completed,
       transactionRef := Some (JStr (ascii ''TST0001'')), completedAt := Some 8\<rparr>]\<rparr>"

section \<open>The shape of a phone number\<close>

text \<open>
  In the words of the specification: an optional leading plus sign, followed by 2 to 15
  digits whose first digit is not zero.
\<close>

definition phoneShape :: "jsstring \<Rightarrow> bool" where
  "phoneShape s \<longleftrightarrow>
     (\<exists>ds. (s = ds \<or> s = 0x2B # ds) \<and> 2 \<le> length ds \<and> length ds \<le> 15 \<and>
           list_all isDigit ds \<and> hd ds \<noteq> 0x30)"

section \<open>Decimal literals\<close>

text \<open>
  The StrDecimalLiteral of ECMAScript, without \<^verbatim>\<open>Infinity\<close>, in four parts: a sign (or
  nothing), the digits before the point, the fraction (nothing, or a point and digits),
  the exponent part (nothing, or \<^verbatim>\<open>e\<close> or \<^verbatim>\<open>E\<close>, a sign or nothing, and at least one
  digit). There is a digit before the point or after it.
\<close>

definition isSign :: "jsstring \<Rightarrow> bool" where
  "isSign sg \<longleftrightarrow> sg = [] \<or> sg = [0x2B] \<or> sg = [0x2D]"

definition isFraction :: "jsstring \<Rightarrow> bool" where
  "isFraction fr \<longleftrightarrow> fr = [] \<or> (\<exists>fp. fr = 0x2E # fp \<and> list_all isDigit fp)"

definition isExponent :: "jsstring \<Rightarrow> bool" where
  "isExponent ex \<longleftrightarrow> ex = [] \<or>
     (\<exists>c sg ds. ex = c # sg @ ds \<and> (c = 0x65 \<or> c = 0x45) \<and> isSign sg \<and> ds \<noteq> [] \<and>
        list_all isDigit ds)"

definition decimalLiteral :: "jsstring \<Rightarrow> jsstring \<Rightarrow> jsstring \<Rightarrow> jsstring \<Rightarrow> bool" where
  "decimalLiteral sg ip fr ex \<longleftrightarrow>
     isSign sg \<and> list_all isDigit ip \<and> isFraction fr \<and> isExponent ex \<and>
     (ip \<noteq> [] \<or> 2 \<le> length fr)"

text \<open>The mathematical value of a literal: its digits, scaled by the powers of ten of
  the fraction and of the exponent, with its sign.\<close>

definition exponentValue :: "jsstring \<Rightarrow> int" where
  "exponentValue ex = (case ex of [] \<Rightarrow> 0
     | c # r \<Rightarrow> (case r of [] \<Rightarrow> 0
         | s # ds \<Rightarrow> if s = 0x2D then - digitsValue ds
                    else if s = 0x2B then digitsValue ds else digitsValue r))"

definition literalValue :: "jsstring \<Rightarrow> jsstring \<Rightarrow> jsstring \<Rightarrow> jsstring \<Rightarrow> rat" where
  "literalValue sg ip fr ex =
     (if sg = [0x2D] then - 1 else 1) * of_int (digitsValue (ip @ tl fr)) *
       10 powi (exponentValue ex - int (length (tl fr)))"

text \<open>A string that is a decimal literal from its first character to its last.\<close>

definition numeric :: "jsstring \<Rightarrow> bool" where
  "numeric s \<longleftrightarrow> (\<exists>sg ip fr ex. s = sg @ ip @ fr @ ex \<and> decimalLiteral sg ip fr ex)"

text \<open>
  The four parts as \<open>parseFloat\<close> reads them off a string, each as long as it can be:
  the sign, the run of digits, the point with the run of digits behind it, and the
  exponent part when it has a digit.
\<close>

definition signOf :: "jsstring \<Rightarrow> jsstring" where
  "signOf t = (case t of [] \<Rightarrow> [] | c # r \<Rightarrow> if c = 0x2D \<or> c = 0x2B then [c] else [])"

definition scanFraction :: "jsstring \<Rightarrow> jsstring" where
  "scanFraction t = (case t of [] \<Rightarrow> []
     | c # r \<Rightarrow> if c = 0x2E then c # takeWhile isDigit r else [])"

definition scanExponent :: "jsstring \<Rightarrow> jsstring" where
  "scanExponent t = (case t of [] \<Rightarrow> []
     | c # r \<Rightarrow>
         if (c = 0x65 \<or> c = 0x45) \<and> takeWhile isDigit (drop (length (signOf r)) r) \<noteq> []
         then c # signOf r @ takeWhile isDigit (drop (length (signOf r)) r) else [])"

definition scanLiteral :: "jsstring \<Rightarrow> jsstring \<times> jsstring \<times> jsstring \<times> jsstring" where
  "scanLiteral t =
     (let sg = signOf t; t1 = drop (length sg) t;
          ip = takeWhile isDigit t1; t2 = dropWhile isDigit t1;
          fr = scanFraction t2; t3 = drop (length fr) t2
      in (sg, ip, fr, scanExponent t3))"

section \<open>Evaluations\<close>

lemma toDouble_250: "toDouble 250 = Finite 250" by code_simp
lemma toDouble_500: "toDouble 500 = Finite 500" by code_simp
lemma toDouble_1: "toDouble 1 = Finite 1" by code_simp
lemma toDouble_2: "toDouble 2 = Finite 2" by code_simp

lemma businessIdOf_7: "businessIdOf 7 = ascii ''BIZ_7''" by code_simp
lemma pid0_eq: "generatePaymentId 7 0x0A1B2C3D = pid0" by code_simp
lemma parseFloat_250: "parseFloat (ascii ''250'') = Finite 250" by code_simp
lemma validateAmount_250: "validateAmount (ascii ''250'')" by code_simp
lemma parseFloat_300: "parseFloat (ascii ''300'') = Finite 300" by code_simp
lemma validateAmount_300: "validateAmount (ascii ''300'')" by code_simp
lemma trim_tea: "trim (ascii ''Tea'') = ascii ''Tea''" by code_simp
lemma validatePhone_ex: "validatePhone (ascii ''+966501234567'')" by code_simp
lemma validateBusinessName_ex: "validateBusinessName (ascii ''Acme Foods'')" by code_simp
lemma trim_acme: "trim (ascii ''Acme Foods'') = ascii ''Acme Foods''" by code_simp
lemma trim_phone: "trim (ascii ''+966501234567'') = ascii ''+966501234567''" by code_simp
lemma trim_coffee: "trim (ascii ''Coffee order'') = ascii ''Coffee order''" by code_simp

lemmas scenario_defs = say_def env0_def session_def acme_def cfg0_def
  on_message_def business_registration_flow_def payment_creation_flow_def menu_views_def
  register_phone_branch_def payment_description_branch_def getUser_def setUser_def
  on_start_def on_update_def Let_def startsWith_def lit_arabic_def lit_english_def ascii_def
  emptyTempData_def initial_def

lemma step_name: "process cfg0 (say 2 (lang_label En Business_register)) initial = st_name"
  by (simp add: scenario_defs st_name_def)

lemma step_phone: "process cfg0 (say 3 (ascii ''Acme Foods'')) st_name = st_phone"
  using validateBusinessName_ex trim_acme
  by (simp add: scenario_defs st_name_def st_phone_def)

lemma step_registered: "process cfg0 (say 4 (ascii ''+966501234567'')) st_phone = st_registered"
  using validatePhone_ex trim_phone businessIdOf_7
  by (simp add: scenario_defs st_phone_def st_registered_def)

lemma step_amount: "process cfg0 (say 5 (lang_label En Create_payment)) st_registered = st_amount"
  using businessIdOf_7
  by (simp add: scenario_defs st_registered_def st_amount_def)

lemma step_description: "process cfg0 (say 6 (ascii ''250'')) st_amount = st_description"
  using validateAmount_250 parseFloat_250
  by (simp add: scenario_defs st_amount_def st_description_def)

lemma step_pending: "process cfg0 (say 7 (ascii ''Coffee order'')) st_description = st_pending"
  using trim_coffee pid0_eq
  by (simp add: scenario_defs st_description_def st_pending_def coffee_def)

lemma step_completed: "process cfg0 (Callback 8 successBody) st_pending = st_completed"
  using businessIdOf_7 toDouble_250 toDouble_1
  by (simp add: paytabs_callback_def lookupPayment_def successBody_def truthyOpt_def
        getPropOpt_def templateThrows_def toNumber_def st_pending_def st_completed_def
        coffee_def session_def acme_def getUser_def Let_def ascii_def pid0_def)

lemma step_amount_again:
  "process cfg0 (say 7 (lang_label En Create_payment)) st_pending = st_amount_again"
  using businessIdOf_7
  by (simp add: scenario_defs st_pending_def st_amount_again_def)

lemma step_description_again:
  "process cfg0 (say 7 (ascii ''300'')) st_amount_again = st_description_again"
  using validateAmount_300 parseFloat_300
  by (simp add: scenario_defs st_amount_again_def st_description_again_def)

section \<open>getUser and setUser\<close>

lemma getUser_fst:
  "fst (getUser t c s) =
     (case users s c of
        None \<Rightarrow> \<lparr>u_id = c, language = En, step = Step_start, tempData = emptyTempData,
                  u_createdAt = t, lastActivity = t\<rparr>
      | Some u \<Rightarrow> u\<lparr>lastActivity := t\<rparr>)"
  by (simp add: getUser_def Let_def split: option.split)

lemma getUser_snd:
  "snd (getUser t c s) = s\<lparr>users := (users s)(c \<mapsto> fst (getUser t c s))\<rparr>"
  by (simp add: getUser_def Let_def)

lemma getUser_fields [simp]:
  "businesses (snd (getUser t c s)) = businesses s"
  "payments (snd (getUser t c s)) = payments s"
  by (simp_all add: getUser_def Let_def)

lemma setUser_fields [simp]:
  "businesses (setUser c u s) = businesses s"
  "payments (setUser c u s) = payments s"
  "users (setUser c u s) = (users s)(c \<mapsto> u)"
  by (simp_all add: setUser_def)

lemma language_getUser:
  "language (fst (getUser t c s)) = (case users s c of None \<Rightarrow> En | Some u \<Rightarrow> language u)"
  by (simp add: getUser_fst split: option.split)

lemma idle_simps [simp]:
  "idle Step_start" "idle Step_main" "\<not> idle Step_register_name"
  "\<not> idle Step_register_phone" "\<not> idle Step_payment_amount"
  "\<not> idle Step_payment_description"
  by (simp_all add: idle_def)

section \<open>The buffer of an idle session\<close>

lemma buffer_inv_getUser: "buffer_inv s \<Longrightarrow> buffer_inv (snd (getUser t c s))"
  by (auto simp: buffer_inv_def getUser_snd getUser_fst split: option.splits)

lemma getUser_ok:
  "buffer_inv s \<Longrightarrow> idle (step (fst (getUser t c s))) \<longrightarrow>
     tempData (fst (getUser t c s)) = emptyTempData"
  by (auto simp: buffer_inv_def getUser_fst split: option.splits)

lemma buffer_inv_setUser:
  "buffer_inv s \<Longrightarrow> idle (step u) \<longrightarrow> tempData u = emptyTempData \<Longrightarrow>
     buffer_inv (setUser c u s)"
  by (auto simp: buffer_inv_def)

lemma buffer_inv_businesses [simp]: "buffer_inv (s\<lparr>businesses := b\<rparr>) = buffer_inv s"
  by (simp add: buffer_inv_def)

lemma buffer_inv_payments [simp]: "buffer_inv (s\<lparr>payments := b\<rparr>) = buffer_inv s"
  by (simp add: buffer_inv_def)

lemma buffer_inv_menu_views:
  "buffer_inv s \<Longrightarrow> buffer_inv (fst (menu_views e c tx u s))"
  by (simp add: menu_views_def Let_def split: option.split)

lemma buffer_inv_payment_creation_flow:
  assumes "buffer_inv s" "idle (step u) \<longrightarrow> tempData u = emptyTempData"
  shows "buffer_inv (fst (payment_creation_flow cfg e c tx u s))"
  using assms
  by (simp add: payment_creation_flow_def Let_def payment_description_branch_def
        buffer_inv_menu_views buffer_inv_setUser)

lemma buffer_inv_business_registration_flow:
  assumes "buffer_inv s" "idle (step u) \<longrightarrow> tempData u = emptyTempData"
  shows "buffer_inv (fst (business_registration_flow cfg e c tx u s))"
  using assms
  by (simp add: business_registration_flow_def Let_def register_phone_branch_def
        buffer_inv_payment_creation_flow buffer_inv_setUser)

lemma buffer_inv_on_message:
  assumes "buffer_inv s"
  shows "buffer_inv (fst (on_message cfg e c msg_text s))"
proof (cases msg_text)
  case None
  then show ?thesis using assms by (simp add: on_message_def)
next
  case (Some tx)
  obtain u s1 where g: "getUser (now e) c s = (u, s1)" by (cases "getUser (now e) c s")
  have i1: "buffer_inv s1" using buffer_inv_getUser[OF assms, of "now e" c] g by simp
  have u1: "idle (step u) \<longrightarrow> tempData u = emptyTempData"
    using getUser_ok[OF assms, of "now e" c] g by auto
  show ?thesis
    using i1 u1 assms
    by (simp add: on_message_def Some g buffer_inv_business_registration_flow
          buffer_inv_setUser)
qed

lemma buffer_inv_process: "buffer_inv s \<Longrightarrow> buffer_inv (process cfg ev s)"
proof (cases ev)
  case (Message e c msg_text)
  assume "buffer_inv s"
  then have "buffer_inv (fst (on_message cfg e c msg_text s))" by (rule buffer_inv_on_message)
  then show ?thesis
    by (auto simp: Message on_update_def on_start_def split_beta Let_def buffer_inv_getUser
          split: option.split)
next
  case (Visit t gw pid)
  assume "buffer_inv s"
  then show ?thesis
    by (simp add: Visit pay_page_def split: option.split gateway.split json.split)
next
  case (Callback t body)
  assume "buffer_inv s"
  then show ?thesis
    by (simp add: Callback paytabs_callback_def Let_def split_beta buffer_inv_getUser
          split: option.split)
qed

lemma buffer_inv_reachable: "reachable cfg s \<Longrightarrow> buffer_inv s"
proof (induction rule: reachable.induct)
  case reachable_initial
  show ?case by (simp add: buffer_inv_def initial_def)
next
  case (reachable_process s ev)
  then show ?case by (simp add: buffer_inv_process)
qed

section \<open>Pending records\<close>

lemma pending_inv_users [simp]: "pending_inv (s\<lparr>users := b\<rparr>) = pending_inv s"
  by (simp add: pending_inv_def)

lemma pending_inv_businesses [simp]: "pending_inv (s\<lparr>businesses := b\<rparr>) = pending_inv s"
  by (simp add: pending_inv_def)

lemma pending_inv_getUser [simp]: "pending_inv (snd (getUser t c s)) = pending_inv s"
  by (simp add: pending_inv_def)

lemma pending_inv_setUser [simp]: "pending_inv (setUser c u s) = pending_inv s"
  by (simp add: pending_inv_def)

lemma pending_inv_upd:
  "pending_inv s \<Longrightarrow> status p = Pending \<longrightarrow> unsettled p \<Longrightarrow>
     pending_inv (s\<lparr>payments := (payments s)(k \<mapsto> p)\<rparr>)"
  by (auto simp: pending_inv_def)

lemma pending_inv_menu_views:
  "pending_inv s \<Longrightarrow> pending_inv (fst (menu_views e c tx u s))"
  by (simp add: menu_views_def Let_def split: option.split)

lemma pending_inv_payment_creation_flow:
  "pending_inv s \<Longrightarrow> pending_inv (fst (payment_creation_flow cfg e c tx u s))"
  by (simp add: payment_creation_flow_def Let_def payment_description_branch_def
        pending_inv_menu_views pending_inv_upd unsettled_def)

lemma pending_inv_business_registration_flow:
  "pending_inv s \<Longrightarrow> pending_inv (fst (business_registration_flow cfg e c tx u s))"
  by (simp add: business_registration_flow_def Let_def register_phone_branch_def
        pending_inv_payment_creation_flow)

lemma pending_inv_on_message:
  "pending_inv s \<Longrightarrow> pending_inv (fst (on_message cfg e c msg_text s))"
  by (simp add: on_message_def split_beta pending_inv_business_registration_flow
        split: option.split)

lemma pending_inv_process: "pending_inv s \<Longrightarrow> pending_inv (process cfg ev s)"
proof (cases ev)
  case (Message e c msg_text)
  assume "pending_inv s"
  then have "pending_inv (fst (on_message cfg e c msg_text s))" by (rule pending_inv_on_message)
  then show ?thesis
    by (auto simp: Message on_update_def on_start_def split_beta Let_def split: option.split)
next
  case (Visit t gw pid)
  assume "pending_inv s"
  then show ?thesis
    by (simp add: Visit pay_page_def pending_inv_upd split: option.split gateway.split json.split)
next
  case (Callback t body)
  assume "pending_inv s"
  then show ?thesis
    by (simp add: Callback paytabs_callback_def Let_def split_beta pending_inv_upd
          lookupPayment_def split: option.split json.split)
qed

lemma pending_inv_reachable: "reachable cfg s \<Longrightarrow> pending_inv s"
proof (induction rule: reachable.induct)
  case reachable_initial
  show ?case by (simp add: pending_inv_def initial_def)
next
  case (reachable_process s ev)
  then show ?case by (simp add: pending_inv_process)
qed

section \<open>Settlement\<close>


text \<open>
  Claim C10. A notification whose \<^verbatim>\<open>payment_result\<close> is missing, or whose
  \<^verbatim>\<open>response_status\<close> is anything but the string \<^verbatim>\<open>'A'\<close>, takes the failure branch
  whatever else it holds: the record it names becomes failed, its failure reason is the
  \<^verbatim>\<open>response_message\<close> when there is one (and it is not empty, zero, false or null),
  \<^verbatim>\<open>'Unknown error'\<close> otherwise, no business is changed, and the notification is
  acknowledged with \<^verbatim>\<open>OK\<close>.
\<close>
theorem callback_failure_branch:
  assumes cart: "getProp body (ascii ''cart_id'') = Some (JStr k)"
    and rec: "payments s k = Some p"
    and fail: "getPropOpt (getProp body (ascii ''payment_result'')) (ascii ''response_status'')
                 \<noteq> Some (JStr (ascii ''A''))"
  shows "\<exists>s'. paytabs_callback t body s =
           (s', Cb_ok,
            [SendMessage (merchantId p)
               (T_payment_failed
                  (case users s (merchantId p) of None \<Rightarrow> En | Some u \<Rightarrow> language u)
                  (amount p) (description p)) None]) \<and>
         payments s' = (payments s)(k \<mapsto>
           p\<lparr>status := Failed,
             failureReason :=
               (if truthyOpt (getPropOpt (getProp body (ascii ''payment_result''))
                                (ascii ''response_message''))
                then getPropOpt (getProp body (ascii ''payment_result''))
                       (ascii ''response_message'')
                else Some (JStr (ascii ''Unknown error'')))\<rparr>) \<and>
         businesses s' = businesses s"
proof -
  have nn: "body \<noteq> JNull" using cart by auto
  show ?thesis
    using nn rec cart fail
    by (simp add: paytabs_callback_def lookupPayment_def Let_def split_beta language_getUser)
qed

section \<open>Link resolver\<close>

text \<open>
  Claim C9. A visit of a payment link changes no session, no business and no record
  but the one it names; that record changes exactly when it is pending and the visit is
  later than its expiry, and then only its status changes, to expired. Whatever the
  gateway does, the record is otherwise as it was, and so is every record that is not
  pending. In a reachable state the record that expires has no settlement field.
\<close>
theorem pay_page_only_expires:
  assumes "pay_page cfg t gw paymentId s = (s', pg)"
  shows "users s' = users s \<and> businesses s' = businesses s \<and>
         (\<forall>k. k \<noteq> paymentId \<longrightarrow> payments s' k = payments s k) \<and>
         payments s' paymentId =
           (case payments s paymentId of
              None \<Rightarrow> None
            | Some p \<Rightarrow>
                if status p = Pending \<and> (case expiresAt p of None \<Rightarrow> False | Some x \<Rightarrow> x < t)
                then Some (p\<lparr>status := Expired\<rparr>) else Some p) \<and>
         (reachable cfg s \<longrightarrow>
            (\<forall>p'. payments s' paymentId = Some p' \<and> payments s' paymentId \<noteq> payments s paymentId
                 \<longrightarrow> status p' = Expired \<and> unsettled p'))"
proof -
  have frame: "users s' = users s \<and> businesses s' = businesses s \<and>
         (\<forall>k. k \<noteq> paymentId \<longrightarrow> payments s' k = payments s k) \<and>
         payments s' paymentId =
           (case payments s paymentId of
              None \<Rightarrow> None
            | Some p \<Rightarrow>
                if status p = Pending \<and> (case expiresAt p of None \<Rightarrow> False | Some x \<Rightarrow> x < t)
                then Some (p\<lparr>status := Expired\<rparr>) else Some p)"
    using assms
    by (auto simp: pay_page_def split: option.splits if_splits gateway.splits json.splits)
  have "\<forall>p'. payments s' paymentId = Some p' \<and> payments s' paymentId \<noteq> payments s paymentId
                 \<longrightarrow> status p' = Expired \<and> unsettled p'" if r: "reachable cfg s"
  proof -
    have "pending_inv s" using r by (rule pending_inv_reachable)
    then show ?thesis
      using frame by (auto simp: pending_inv_def unsettled_def split: option.splits if_splits)
  qed
  then show ?thesis using frame by blast
qed

text \<open>
  Claim C3, as amended. In every reachable state, a session whose step is idle
  (\<^verbatim>\<open>'start'\<close> or \<^verbatim>\<open>'main'\<close>) has an empty input buffer: whenever a flow completes or
  the step returns to idle, the buffer has been cleared.
\<close>
theorem idle_session_buffer_empty:
  assumes "reachable cfg s" and "users s chatId = Some u" and "idle (step u)"
  shows "tempData u = emptyTempData"
  using buffer_inv_reachable[OF assms(1)] assms(2,3) by (auto simp: buffer_inv_def)

section \<open>Texts the handler treats before the step\<close>

lemma nonzero_digit: "0x31 \<le> d \<Longrightarrow> d \<le> 0x39 \<Longrightarrow> isDigit d" for d :: "16 word"
proof -
  assume a: "0x31 \<le> d" "d \<le> 0x39"
  have "(0x30 :: 16 word) \<le> 0x31" by simp
  then have "0x30 \<le> d" using a(1) by (rule order_trans)
  then show ?thesis using a(2) by (simp add: isDigit_def)
qed

lemma phoneRegex_test_chars:
  "phoneRegex_test r \<Longrightarrow> r \<noteq> [] \<and> list_all (\<lambda>c. c = 0x2B \<or> isDigit c) r"
  by (auto simp: phoneRegex_test_def Let_def list_all_iff nonzero_digit
        split: list.splits if_splits)

lemma validatePhone_chars:
  assumes "validatePhone tx"
  shows "tx \<noteq> []" and "\<forall>c\<in>set tx. isWhiteSpace c \<or> c = 0x2B \<or> isDigit c"
proof -
  let ?r = "filter (\<lambda>c. \<not> isWhiteSpace c) tx"
  have r: "?r \<noteq> []" "list_all (\<lambda>c. c = 0x2B \<or> isDigit c) ?r"
    using assms phoneRegex_test_chars[of ?r] by (simp_all add: validatePhone_def)
  show "tx \<noteq> []" using r(1) by auto
  show "\<forall>c\<in>set tx. isWhiteSpace c \<or> c = 0x2B \<or> isDigit c"
    using r(2) by (auto simp: list_all_iff)
qed

lemma not_phone_char:
  "\<not> (isWhiteSpace c \<or> c = 0x2B \<or> isDigit c)"
  if "c = 0x2F \<or> c = 0xD83C \<or> c = 0xD83D" for c :: "16 word"
  using that by (auto simp: isWhiteSpace_def isDigit_def)

lemma label_head: "hd (lang_label l Business_register) = 0xD83D"
  by (cases l) simp_all

lemma label_nonempty: "lang_label l k \<noteq> []"
  by (cases l; cases k) simp_all

lemma validatePhone_plain:
  assumes "validatePhone tx"
  shows "tx \<noteq> [] \<and> \<not> startsWith tx (ascii ''/'') \<and> tx \<noteq> lit_arabic \<and> tx \<noteq> lit_english \<and>
    tx \<noteq> lang_label l Business_register"
proof -
  note c = validatePhone_chars[OF assms]
  have n1: "tx \<noteq> []" by (rule c(1))
  have hd: "isWhiteSpace (hd tx) \<or> hd tx = 0x2B \<or> isDigit (hd tx)"
    using c by (cases tx) auto
  have n2: "\<not> startsWith tx (ascii ''/'')"
  proof
    assume "startsWith tx (ascii ''/'')"
    then have "hd tx = 0x2F" using c(1) by (cases tx) (auto simp: startsWith_def ascii_def)
    then show False using hd not_phone_char[of "hd tx"] by simp
  qed
  have n3: "tx \<noteq> lit_arabic"
  proof
    assume "tx = lit_arabic"
    then have "hd tx = 0xD83C" by (simp add: lit_arabic_def)
    then show False using hd not_phone_char[of "hd tx"] by simp
  qed
  have n4: "tx \<noteq> lit_english"
  proof
    assume "tx = lit_english"
    then have "hd tx = 0xD83C" by (simp add: lit_english_def)
    then show False using hd not_phone_char[of "hd tx"] by simp
  qed
  have n5: "tx \<noteq> lang_label l Business_register"
  proof
    assume "tx = lang_label l Business_register"
    then have "hd tx = 0xD83D" by (simp add: label_head)
    then show False using hd not_phone_char[of "hd tx"] by simp
  qed
  show ?thesis using n1 n2 n3 n4 n5 by simp
qed

section \<open>The steps of the conversation\<close>

lemma on_message_plain:
  assumes "tx \<noteq> []" "\<not> startsWith tx (ascii ''/'')" "tx \<noteq> lit_arabic" "tx \<noteq> lit_english"
  shows "on_message cfg e c (Some tx) s =
           business_registration_flow cfg e c tx (fst (getUser (now e) c s))
             (snd (getUser (now e) c s))"
  using assms by (simp add: on_message_def split_beta)


text \<open>
  Claim C5, as amended. For a session in the step \<^verbatim>\<open>'register_phone'\<close>: a text that passes
  the phone validation creates or overwrites the business of the chat with the stashed
  name, the trimmed text as phone and the three counters at zero, clears the buffer,
  returns the step to \<^verbatim>\<open>'main'\<close> and sends the confirmation with the main menu; a text
  that fails the validation never changes a business; and when it is not empty, does not
  start with a slash, and is neither a language literal nor the register label of the
  session's language, the invalid-phone prompt is sent and the session stays in the step.
\<close>
theorem register_phone_step:
  assumes "users s chatId = Some u" and "step u = Step_register_phone"
  shows "(validatePhone tx \<longrightarrow>
            on_message cfg e chatId (Some tx) s =
              (s\<lparr>users := (users s)(chatId \<mapsto>
                     u\<lparr>lastActivity := now e, step := Step_main, tempData := emptyTempData\<rparr>),
                  businesses := (businesses s)(businessIdOf chatId \<mapsto>
                     \<lparr>b_id = businessIdOf chatId, ownerId = chatId,
                      name = businessName (tempData u), phone = trim tx,
                      b_createdAt = now e, totalSales = Finite 0, todaySales = Finite 0,
                      transactionCount = Finite 0\<rparr>)\<rparr>,
               awaitSend e chatId (language u)
                 (SendMessage chatId (T_business_registered (language u) None)
                    (Some (getMainMenu (language u)))))) \<and>
         (\<not> validatePhone tx \<longrightarrow>
            businesses (fst (on_message cfg e chatId (Some tx) s)) = businesses s) \<and>
         (\<not> validatePhone tx \<and> tx \<noteq> [] \<and> \<not> startsWith tx (ascii ''/'') \<and>
          tx \<noteq> lit_arabic \<and> tx \<noteq> lit_english \<and>
          tx \<noteq> lang_label (language u) Business_register \<longrightarrow>
            on_message cfg e chatId (Some tx) s =
              (s\<lparr>users := (users s)(chatId \<mapsto> u\<lparr>lastActivity := now e\<rparr>)\<rparr>,
               awaitSend e chatId (language u)
                 (SendMessage chatId (T_lang (language u) Invalid_phone) None)))"
proof (intro conjI impI)
  assume v: "validatePhone tx"
  note p = validatePhone_plain[OF v, of "language u"]
  show "on_message cfg e chatId (Some tx) s =
              (s\<lparr>users := (users s)(chatId \<mapsto>
                     u\<lparr>lastActivity := now e, step := Step_main, tempData := emptyTempData\<rparr>),
                  businesses := (businesses s)(businessIdOf chatId \<mapsto>
                     \<lparr>b_id = businessIdOf chatId, ownerId = chatId,
                      name = businessName (tempData u), phone = trim tx,
                      b_createdAt = now e, totalSales = Finite 0, todaySales = Finite 0,
                      transactionCount = Finite 0\<rparr>)\<rparr>,
               awaitSend e chatId (language u)
                 (SendMessage chatId (T_business_registered (language u) None)
                    (Some (getMainMenu (language u)))))"
    using p v assms
    by (simp add: on_message_plain business_registration_flow_def register_phone_branch_def
          getUser_fst getUser_snd setUser_def emptyTempData_def Let_def)
next
  assume v: "\<not> validatePhone tx"
  show "businesses (fst (on_message cfg e chatId (Some tx) s)) = businesses s"
    using v assms
    by (simp add: on_message_def split_beta business_registration_flow_def
          register_phone_branch_def getUser_fst Let_def)
next
  assume v: "\<not> validatePhone tx \<and> tx \<noteq> [] \<and> \<not> startsWith tx (ascii ''/'') \<and>
          tx \<noteq> lit_arabic \<and> tx \<noteq> lit_english \<and>
          tx \<noteq> lang_label (language u) Business_register"
  show "on_message cfg e chatId (Some tx) s =
              (s\<lparr>users := (users s)(chatId \<mapsto> u\<lparr>lastActivity := now e\<rparr>)\<rparr>,
               awaitSend e chatId (language u)
                 (SendMessage chatId (T_lang (language u) Invalid_phone) None))"
    using v assms
    by (simp add: on_message_plain business_registration_flow_def register_phone_branch_def
          getUser_fst getUser_snd Let_def)
qed


lemma on_start_known:
  "users s chatId = Some u \<Longrightarrow> lastActivity u = now e \<Longrightarrow>
     on_start e chatId s = (s, [SendMessage chatId T_start_prompt (Some getLanguageKeyboard)])"
proof -
  assume a: "users s chatId = Some u" "lastActivity u = now e"
  have "u\<lparr>lastActivity := now e\<rparr> = u" using a(2) by simp
  then have "(users s)(chatId \<mapsto> u\<lparr>lastActivity := now e\<rparr>) = users s"
    using a(1) by (simp add: fun_upd_idem)
  then show ?thesis using a(1) by (simp add: on_start_def getUser_def Let_def)
qed

text \<open>The \<^verbatim>\<open>message\<close> listener in the step \<^verbatim>\<open>'payment_description'\<close>.\<close>
lemma payment_description_listener:
  assumes "users s chatId = Some u" and "step u = Step_payment_description"
    and "td_amount (tempData u) = Some a"
    and "tx \<noteq> []" and "\<not> startsWith tx (ascii ''/'')"
    and "tx \<noteq> lit_arabic" and "tx \<noteq> lit_english"
    and "tx \<noteq> lang_label (language u) Business_register"
    and "tx \<noteq> lang_label (language u) Create_payment"
    and "paymentId = generatePaymentId (idTime e) (randomBytes e)"
    and "message = T_payment_created (language u) (Some a) (trim tx)
                     (envString (WEBHOOK_URL cfg) @ ascii ''/pay/'' @ paymentId)"
  shows "on_message cfg e chatId (Some tx) s =
           (s\<lparr>users := (users s)(chatId \<mapsto>
                  u\<lparr>lastActivity := now e, step := Step_main, tempData := emptyTempData\<rparr>),
               payments := (payments s)(paymentId \<mapsto>
                  \<lparr>p_id = paymentId, merchantId = chatId, amount = Some a,
                   description = trim tx, status = Pending, p_createdAt = createdTime e,
                   expiresAt = Some (expiryTime e + 86400000),
                   transactionRef = None, completedAt = None, failureReason = None\<rparr>)\<rparr>,
            awaitSend e chatId (language u)
              (case qrImage e of
                 Some qrBuffer \<Rightarrow>
                   SendPhoto chatId qrBuffer message (Some (getMainMenu (language u)))
               | None \<Rightarrow> SendMessage chatId message (Some (getMainMenu (language u)))))"
  using assms(1-9) unfolding assms(10,11)
  by (simp add: on_message_plain business_registration_flow_def payment_creation_flow_def
        payment_description_branch_def getUser_fst getUser_snd setUser_def Let_def)

text \<open>
  Claim C4, as amended. For a session in the step \<^verbatim>\<open>'payment_description'\<close> with a stashed
  amount, a text that is not empty, does not start with a slash, and is neither a
  language literal nor the register label nor the payment label of the session's
  language stores a record under the generated identifier (in the place of any record
  the ledger held under it), pending, with the stashed amount, the trimmed text as
  description and an expiry 24 hours after the clock reading taken for it; the buffer is
  cleared and the step returns to \<^verbatim>\<open>'main'\<close>; the message with the link is sent as the
  caption of the QR image, or as plain text when the encoder failed; the start handler
  adds the language keyboard when the text contains \<^verbatim>\<open>/start\<close>, and changes nothing.
\<close>
theorem payment_description_step:
  assumes "users s chatId = Some u" and "step u = Step_payment_description"
    and "td_amount (tempData u) = Some a"
    and "tx \<noteq> []" and "\<not> startsWith tx (ascii ''/'')"
    and "tx \<noteq> lit_arabic" and "tx \<noteq> lit_english"
    and "tx \<noteq> lang_label (language u) Business_register"
    and "tx \<noteq> lang_label (language u) Create_payment"
    and "paymentId = generatePaymentId (idTime e) (randomBytes e)"
    and "message = T_payment_created (language u) (Some a) (trim tx)
                     (envString (WEBHOOK_URL cfg) @ ascii ''/pay/'' @ paymentId)"
  shows "on_update cfg e chatId (Some tx) s =
           (s\<lparr>users := (users s)(chatId \<mapsto>
                  u\<lparr>lastActivity := now e, step := Step_main, tempData := emptyTempData\<rparr>),
               payments := (payments s)(paymentId \<mapsto>
                  \<lparr>p_id = paymentId, merchantId = chatId, amount = Some a,
                   description = trim tx, status = Pending, p_createdAt = createdTime e,
                   expiresAt = Some (expiryTime e + 86400000),
                   transactionRef = None, completedAt = None, failureReason = None\<rparr>)\<rparr>,
            awaitSend e chatId (language u)
              (case qrImage e of
                 Some qrBuffer \<Rightarrow>
                   SendPhoto chatId qrBuffer message (Some (getMainMenu (language u)))
               | None \<Rightarrow> SendMessage chatId message (Some (getMainMenu (language u)))),
            if contains tx (ascii ''/start'')
            then [SendMessage chatId T_start_prompt (Some getLanguageKeyboard)] else [])"
proof -
  let ?u = "u\<lparr>lastActivity := now e, step := Step_main, tempData := emptyTempData\<rparr>"
  let ?s = "s\<lparr>users := (users s)(chatId \<mapsto> ?u),
               payments := (payments s)(paymentId \<mapsto>
                  \<lparr>p_id = paymentId, merchantId = chatId, amount = Some a,
                   description = trim tx, status = Pending, p_createdAt = createdTime e,
                   expiresAt = Some (expiryTime e + 86400000),
                   transactionRef = None, completedAt = None, failureReason = None\<rparr>)\<rparr>"
  note om = payment_description_listener[OF assms]
  have st: "on_start e chatId ?s =
              (?s, [SendMessage chatId T_start_prompt (Some getLanguageKeyboard)])"
    by (rule on_start_known[of _ _ ?u]) simp_all
  show ?thesis
    unfolding on_update_def om using st by simp
qed




lemma reachable_st_name: "reachable cfg0 st_name"
proof -
  have "reachable cfg0 (process cfg0 (say 2 (lang_label En Business_register)) initial)"
    by (rule reachable_process[OF reachable_initial])
  then show ?thesis by (simp only: step_name)
qed

lemma reachable_st_phone: "reachable cfg0 st_phone"
proof -
  have "reachable cfg0 (process cfg0 (say 3 (ascii ''Acme Foods'')) st_name)"
    by (rule reachable_process[OF reachable_st_name])
  then show ?thesis by (simp only: step_phone)
qed

lemma reachable_st_registered: "reachable cfg0 st_registered"
proof -
  have "reachable cfg0 (process cfg0 (say 4 (ascii ''+966501234567'')) st_phone)"
    by (rule reachable_process[OF reachable_st_phone])
  then show ?thesis by (simp only: step_registered)
qed

lemma reachable_st_amount: "reachable cfg0 st_amount"
proof -
  have "reachable cfg0 (process cfg0 (say 5 (lang_label En Create_payment)) st_registered)"
    by (rule reachable_process[OF reachable_st_registered])
  then show ?thesis by (simp only: step_amount)
qed

lemma reachable_st_description: "reachable cfg0 st_description"
proof -
  have "reachable cfg0 (process cfg0 (say 6 (ascii ''250'')) st_amount)"
    by (rule reachable_process[OF reachable_st_amount])
  then show ?thesis by (simp only: step_description)
qed

lemma reachable_st_pending: "reachable cfg0 st_pending"
proof -
  have "reachable cfg0 (process cfg0 (say 7 (ascii ''Coffee order'')) st_description)"
    by (rule reachable_process[OF reachable_st_description])
  then show ?thesis by (simp only: step_pending)
qed

lemma reachable_st_completed: "reachable cfg0 st_completed"
proof -
  have "reachable cfg0 (process cfg0 (Callback 8 successBody) st_pending)"
    by (rule reachable_process[OF reachable_st_pending])
  then show ?thesis by (simp only: step_completed)
qed

lemma reachable_st_amount_again: "reachable cfg0 st_amount_again"
proof -
  have "reachable cfg0 (process cfg0 (say 7 (lang_label En Create_payment)) st_pending)"
    by (rule reachable_process[OF reachable_st_pending])
  then show ?thesis by (simp only: step_amount_again)
qed

lemma reachable_st_description_again: "reachable cfg0 st_description_again"
proof -
  have "reachable cfg0 (process cfg0 (say 7 (ascii ''300'')) st_amount_again)"
    by (rule reachable_process[OF reachable_st_amount_again])
  then show ?thesis by (simp only: step_description_again)
qed

lemmas body_defs = successBody_def declinedBody_def ascii_def pid0_def

text \<open>
  Claim C1. The settlement handler does not test the current status of the record. In
  the reachable state where the record of 250 SAR is completed and the business has sold
  250 in one transaction, a failure notification for the record makes it failed, and a
  second success notification counts its amount again: 500 in two transactions.
\<close>
theorem settlement_repeats_on_completed_record:
  "reachable cfg0 st_completed \<and>
   map_option status (payments st_completed pid0) = Some Completed \<and>
   map_option status (payments (process cfg0 (Callback 9 declinedBody) st_completed) pid0)
     = Some Failed \<and>
   businesses (process cfg0 (Callback 9 successBody) st_completed) (ascii ''BIZ_7'')
     = Some (acme (Finite 500) (Finite 500) (Finite 2))"
proof -
  have a: "map_option status (payments st_completed pid0) = Some Completed"
    by (simp add: st_completed_def)
  have b: "map_option status (payments (process cfg0 (Callback 9 declinedBody) st_completed) pid0)
     = Some Failed"
    by (simp add: paytabs_callback_def lookupPayment_def truthyOpt_def getPropOpt_def
          st_completed_def Let_def split_beta body_defs)
  have c: "businesses (process cfg0 (Callback 9 successBody) st_completed) (ascii ''BIZ_7'')
     = Some (acme (Finite 500) (Finite 500) (Finite 2))"
    using businessIdOf_7 toDouble_500 toDouble_2
    by (simp add: paytabs_callback_def lookupPayment_def truthyOpt_def getPropOpt_def
          templateThrows_def toNumber_def st_completed_def coffee_def acme_def Let_def
          split_beta body_defs)
  show ?thesis using reachable_st_completed a b c by simp
qed



text \<open>
  A declined payment, and a notification that names the record and nothing else.
\<close>
theorem callback_failure_branch_witness:
  "(\<exists>s'. fst (paytabs_callback 8 declinedBody st_pending) = s' \<and>
      payments s' pid0 = Some (coffee\<lparr>status := Failed,
        failureReason := Some (JStr (ascii ''Declined''))\<rparr>) \<and>
      businesses s' = businesses st_pending) \<and>
   (\<exists>s'. fst (paytabs_callback 8 (JObj [(ascii ''cart_id'', JStr pid0)]) st_pending) = s' \<and>
      payments s' pid0 = Some (coffee\<lparr>status := Failed,
        failureReason := Some (JStr (ascii ''Unknown error''))\<rparr>) \<and>
      businesses s' = businesses st_pending)"
proof -
  let ?b = "JObj [(ascii ''cart_id'', JStr pid0)]"
  have h1: "getProp declinedBody (ascii ''cart_id'') = Some (JStr pid0)"
    by (simp add: body_defs)
  have h2: "payments st_pending pid0 = Some coffee" by (simp add: st_pending_def)
  have h3: "getPropOpt (getProp declinedBody (ascii ''payment_result'')) (ascii ''response_status'')
              \<noteq> Some (JStr (ascii ''A''))"
    by (simp add: body_defs getPropOpt_def)
  have g1: "getProp ?b (ascii ''cart_id'') = Some (JStr pid0)"
    by (simp add: body_defs)
  have g3: "getPropOpt (getProp ?b (ascii ''payment_result'')) (ascii ''response_status'')
              \<noteq> Some (JStr (ascii ''A''))"
    by (simp add: body_defs getPropOpt_def)
  from callback_failure_branch[OF h1 h2 h3, of 8]
  have A: "\<exists>s'. fst (paytabs_callback 8 declinedBody st_pending) = s' \<and>
      payments s' pid0 = Some (coffee\<lparr>status := Failed,
        failureReason := Some (JStr (ascii ''Declined''))\<rparr>) \<and>
      businesses s' = businesses st_pending"
    by (auto simp: body_defs getPropOpt_def truthyOpt_def)
  from callback_failure_branch[OF g1 h2 g3, of 8]
  have B: "\<exists>s'. fst (paytabs_callback 8 ?b st_pending) = s' \<and>
      payments s' pid0 = Some (coffee\<lparr>status := Failed,
        failureReason := Some (JStr (ascii ''Unknown error''))\<rparr>) \<and>
      businesses s' = businesses st_pending"
    by (auto simp: body_defs getPropOpt_def truthyOpt_def)
  show ?thesis using A B by blast
qed

text \<open>
  A visit after the expiry of the pending record of 250 SAR expires it; a visit at the
  very millisecond of the expiry does not.
\<close>
theorem pay_page_only_expires_witness:
  "payments (fst (pay_page cfg0 90000000 Gateway_throws pid0 st_pending)) pid0
     = Some (coffee\<lparr>status := Expired\<rparr>) \<and>
   unsettled (coffee\<lparr>status := Expired\<rparr>) \<and>
   users (fst (pay_page cfg0 90000000 Gateway_throws pid0 st_pending)) = users st_pending \<and>
   businesses (fst (pay_page cfg0 90000000 Gateway_throws pid0 st_pending))
     = businesses st_pending \<and>
   payments (fst (pay_page cfg0 86400007 Gateway_throws pid0 st_pending)) pid0 = Some coffee"
proof -
  have e1: "pay_page cfg0 90000000 Gateway_throws pid0 st_pending =
     (fst (pay_page cfg0 90000000 Gateway_throws pid0 st_pending),
      snd (pay_page cfg0 90000000 Gateway_throws pid0 st_pending))" by simp
  have e2: "pay_page cfg0 86400007 Gateway_throws pid0 st_pending =
     (fst (pay_page cfg0 86400007 Gateway_throws pid0 st_pending),
      snd (pay_page cfg0 86400007 Gateway_throws pid0 st_pending))" by simp
  have p: "payments st_pending pid0 = Some coffee" by (simp add: st_pending_def)
  have ne: "coffee\<lparr>status := Expired\<rparr> \<noteq> coffee" by (simp add: coffee_def)
  show ?thesis
    using pay_page_only_expires[OF e1] pay_page_only_expires[OF e2] reachable_st_pending p ne
    by (simp add: coffee_def)
qed

text \<open>After the registration the session is idle and its buffer is empty.\<close>
theorem idle_session_buffer_empty_witness:
  "reachable cfg0 st_registered \<and>
   users st_registered 7 = Some (session Step_main emptyTempData 4) \<and>
   idle (step (session Step_main emptyTempData 4)) \<and>
   tempData (session Step_main emptyTempData 4) = emptyTempData"
proof -
  have u: "users st_registered 7 = Some (session Step_main emptyTempData 4)"
    by (simp add: st_registered_def)
  have i: "idle (step (session Step_main emptyTempData 4))" by (simp add: session_def)
  show ?thesis
    using idle_session_buffer_empty[OF reachable_st_registered u i] reachable_st_registered u i
    by simp
qed

text \<open>
  Claim C3 as stated fails: the merchant has typed the amount 250 and is asked for the
  description; with the register label the session enters the registration flow and the
  amount is still in its buffer.
\<close>
theorem buffer_kept_on_register_counterexample:
  "reachable cfg0 st_description \<and>
   map_option step (users st_description 7) = Some Step_payment_description \<and>
   map_option step
     (users (process cfg0 (say 9 (lang_label En Business_register)) st_description) 7)
     = Some Step_register_name \<and>
   map_option tempData
     (users (process cfg0 (say 9 (lang_label En Business_register)) st_description) 7)
     = Some \<lparr>businessName = None, td_amount = Some (Finite 250)\<rparr>"
  using reachable_st_description
  by (simp add: scenario_defs st_description_def)

lemma digit_nonzero: "isDigit d \<Longrightarrow> d \<noteq> 0x30 \<Longrightarrow> 0x31 \<le> d \<and> d \<le> 0x39" for d :: "16 word"
  by (simp add: isDigit_def word_le_nat_alt) unat_arith

lemma digit_not_plus: "isDigit d \<Longrightarrow> d \<noteq> 0x2B" for d :: "16 word"
  by (auto simp: isDigit_def)

lemma nonzero_digit_ne: "0x31 \<le> d \<Longrightarrow> d \<noteq> 0x30" for d :: "16 word"
  by auto

lemma phoneShape_regex: "phoneShape s \<longleftrightarrow> phoneRegex_test s"
proof
  assume "phoneShape s"
  then obtain ds where s: "s = ds \<or> s = 0x2B # ds" and l: "2 \<le> length ds" "length ds \<le> 15"
    and d: "list_all isDigit ds" and z: "hd ds \<noteq> 0x30"
    by (auto simp: phoneShape_def)
  from l obtain d0 ds' where ds: "ds = d0 # ds'" by (cases ds) auto
  have d0: "0x31 \<le> d0 \<and> d0 \<le> 0x39" "d0 \<noteq> 0x2B"
    using d z ds digit_nonzero[of d0] digit_not_plus[of d0] by auto
  have t: "phoneRegex_test ds"
    using d0 l d ds by (simp add: phoneRegex_test_def)
  from s show "phoneRegex_test s"
  proof
    assume "s = ds" then show ?thesis using t by simp
  next
    assume "s = 0x2B # ds"
    then show ?thesis using d0 l d ds by (simp add: phoneRegex_test_def)
  qed
next
  assume a: "phoneRegex_test s"
  let ?r = "case s of [] \<Rightarrow> s | c # t \<Rightarrow> if c = 0x2B then t else s"
  from a obtain d0 ds' where r: "?r = d0 # ds'" and d0: "0x31 \<le> d0" "d0 \<le> 0x39"
    and l: "1 \<le> length ds'" "length ds' \<le> 14" and d: "list_all isDigit ds'"
    by (auto simp: phoneRegex_test_def Let_def split: list.splits)
  have sh: "s = ?r \<or> s = 0x2B # ?r" by (cases s) auto
  have "list_all isDigit (d0 # ds')" using d d0 nonzero_digit by simp
  moreover have "hd (d0 # ds') \<noteq> 0x30" using d0 nonzero_digit_ne by simp
  ultimately show "phoneShape s"
    unfolding phoneShape_def using sh r l
    by (intro exI[of _ "d0 # ds'"]) auto
qed

text \<open>
  Claim C8, as amended. The phone validation accepts a string if and only if the string
  without its white space is an optional plus sign followed by 2 to 15 digits whose
  first digit is not zero.
\<close>
theorem validatePhone_shape:
  "validatePhone s \<longleftrightarrow> phoneShape (filter (\<lambda>c. \<not> isWhiteSpace c) s)"
  by (simp add: validatePhone_def phoneShape_regex)

lemma filter_ex: "filter (\<lambda>c. \<not> isWhiteSpace c) (ascii ''+966 50 123 4567'') = ascii ''+966501234567''"
  by code_simp

text \<open>A phone number written with spaces.\<close>
theorem validatePhone_shape_witness:
  "validatePhone (ascii ''+966 50 123 4567'') \<and> phoneShape (ascii ''+966501234567'')"
proof -
  have v: "validatePhone (ascii ''+966 50 123 4567'')" by code_simp
  then show ?thesis using validatePhone_shape[of "ascii ''+966 50 123 4567''"] filter_ex by simp
qed

text \<open>
  Claim C8 as stated fails: \<^verbatim>\<open>1 2\<close> is accepted and is not a plus sign and digits.
\<close>
theorem validatePhone_spaces_counterexample:
  "validatePhone (ascii ''1 2'') \<and> \<not> phoneShape (ascii ''1 2'')"
proof -
  have v: "validatePhone (ascii ''1 2'')" by code_simp
  have "\<not> phoneRegex_test (ascii ''1 2'')" by code_simp
  then show ?thesis using v by (simp add: phoneShape_regex)
qed

section \<open>Examples of the conversation steps\<close>

lemma notaphone: "\<not> validatePhone (ascii ''notaphone'')" by code_simp

lemma register_label_not_phone: "\<not> validatePhone (lang_label En Business_register)"
  using validatePhone_plain[of "lang_label En Business_register" En] by blast

text \<open>The merchant's phone number is accepted; \<^verbatim>\<open>notaphone\<close> is not.\<close>
theorem register_phone_step_witness:
  "on_message cfg0 (env0 4) 7 (Some (ascii ''+966501234567'')) st_phone =
     (st_registered,
      [SendMessage 7 (T_business_registered En None) (Some (getMainMenu En))]) \<and>
   on_message cfg0 (env0 4) 7 (Some (ascii ''notaphone'')) st_phone =
     (st_phone\<lparr>users := [7 \<mapsto> session Step_register_phone
          \<lparr>businessName = Some (ascii ''Acme Foods''), td_amount = None\<rparr> 4]\<rparr>,
      [SendMessage 7 (T_lang En Invalid_phone) None])"
proof -
  let ?u = "session Step_register_phone
       \<lparr>businessName = Some (ascii ''Acme Foods''), td_amount = None\<rparr> 3"
  have u: "users st_phone 7 = Some ?u" by (simp add: st_phone_def)
  have st: "step ?u = Step_register_phone" by (simp add: session_def)
  have plain: "ascii ''notaphone'' \<noteq> [] \<and> \<not> startsWith (ascii ''notaphone'') (ascii ''/'') \<and>
      ascii ''notaphone'' \<noteq> lit_arabic \<and> ascii ''notaphone'' \<noteq> lit_english \<and>
      ascii ''notaphone'' \<noteq> lang_label (language ?u) Business_register"
    by (simp add: ascii_def startsWith_def lit_arabic_def lit_english_def session_def)
  note t1 = register_phone_step[OF u st, of "ascii ''+966501234567''" cfg0 "env0 4"]
  note t2 = register_phone_step[OF u st, of "ascii ''notaphone''" cfg0 "env0 4"]
  have a: "on_message cfg0 (env0 4) 7 (Some (ascii ''+966501234567'')) st_phone =
     (st_registered,
      [SendMessage 7 (T_business_registered En None) (Some (getMainMenu En))])"
    using t1 validatePhone_ex trim_phone businessIdOf_7
    by (simp add: st_phone_def st_registered_def session_def acme_def env0_def awaitSend_def
          emptyTempData_def)
  have b: "on_message cfg0 (env0 4) 7 (Some (ascii ''notaphone'')) st_phone =
     (st_phone\<lparr>users := [7 \<mapsto> session Step_register_phone
          \<lparr>businessName = Some (ascii ''Acme Foods''), td_amount = None\<rparr> 4]\<rparr>,
      [SendMessage 7 (T_lang En Invalid_phone) None])"
    using t2 notaphone plain
    by (simp add: st_phone_def session_def env0_def awaitSend_def)
  show ?thesis using a b by simp
qed

text \<open>
  Claim C5 as stated fails: the register label fails the phone validation, and a session
  that awaits the phone answers it with the prompt for the name and moves to the step
  \<^verbatim>\<open>'register_name'\<close>.
\<close>
theorem register_phone_label_counterexample:
  "map_option step (users st_phone 7) = Some Step_register_phone \<and>
   \<not> validatePhone (lang_label En Business_register) \<and>
   snd (on_message cfg0 (env0 4) 7 (Some (lang_label En Business_register)) st_phone) =
     [SendMessage 7 (T_lang En Enter_business_name) (Some Remove_keyboard)] \<and>
   map_option step
     (users (fst (on_message cfg0 (env0 4) 7 (Some (lang_label En Business_register)) st_phone)) 7)
     = Some Step_register_name"
  using register_label_not_phone
  by (simp add: scenario_defs st_phone_def awaitSend_def)

text \<open>The description \<^verbatim>\<open>Coffee order\<close> creates the pending record of 250 SAR.\<close>
theorem payment_description_step_witness:
  "on_update cfg0 (env0 7) 7 (Some (ascii ''Coffee order'')) st_description =
     (st_pending,
      [SendMessage 7
         (T_payment_created En (Some (Finite 250)) (ascii ''Coffee order'')
            (ascii ''https://dafi.example/pay/DAFI_7_0a1b2c3d''))
         (Some (getMainMenu En))],
      [])"
proof -
  let ?u = "session Step_payment_description
       \<lparr>businessName = None, td_amount = Some (Finite 250)\<rparr> 6"
  let ?tx = "ascii ''Coffee order''"
  have u: "users st_description 7 = Some ?u" by (simp add: st_description_def)
  have st: "step ?u = Step_payment_description" by (simp add: session_def)
  have am: "td_amount (tempData ?u) = Some (Finite 250)" by (simp add: session_def)
  have p1: "?tx \<noteq> []" and p2: "\<not> startsWith ?tx (ascii ''/'')" and p3: "?tx \<noteq> lit_arabic"
    and p4: "?tx \<noteq> lit_english" and p5: "?tx \<noteq> lang_label (language ?u) Business_register"
    and p6: "?tx \<noteq> lang_label (language ?u) Create_payment"
    by (simp_all add: ascii_def startsWith_def lit_arabic_def lit_english_def session_def)
  have url: "envString (WEBHOOK_URL cfg0) @ ascii ''/pay/'' @ pid0 =
               ascii ''https://dafi.example/pay/DAFI_7_0a1b2c3d''"
    by (simp add: cfg0_def envString_def pid0_def ascii_def)
  have id: "pid0 = generatePaymentId (idTime (env0 7)) (randomBytes (env0 7))"
    using pid0_eq by (simp add: env0_def)
  have p7: "\<not> contains ?tx (ascii ''/start'')" by (simp add: ascii_def startsWith_def)
  note t = payment_description_step[OF u st am p1 p2 p3 p4 p5 p6 id refl, of cfg0]
  show ?thesis
    using t trim_coffee p7
    by (simp add: url st_description_def st_pending_def session_def coffee_def env0_def
          awaitSend_def emptyTempData_def)
qed

text \<open>
  Claim C4 as stated fails: the session awaits the description with 250 stashed; the
  text of the English language button creates no record, and the session keeps its step
  and its buffer. And when the clock ticks between the two readings of the record, the
  expiry is 24 hours and a millisecond after the creation. And the identifier need not be
  new: the same merchant asks for a second link of 300 SAR within the millisecond, the
  random bytes come out the same, and the record of the coffee is gone from the ledger,
  which holds the tea alone under the identifier of the first link.
\<close>
theorem payment_description_literal_counterexample:
  "map_option step (users st_description 7) = Some Step_payment_description \<and>
   map_option tempData (users st_description 7)
     = Some \<lparr>businessName = None, td_amount = Some (Finite 250)\<rparr> \<and>
   payments (fst (on_message cfg0 (env0 7) 7 (Some lit_english) st_description)) = Map.empty \<and>
   map_option step (users (fst (on_message cfg0 (env0 7) 7 (Some lit_english) st_description)) 7)
     = Some Step_payment_description \<and>
   map_option tempData
     (users (fst (on_message cfg0 (env0 7) 7 (Some lit_english) st_description)) 7)
     = Some \<lparr>businessName = None, td_amount = Some (Finite 250)\<rparr> \<and>
   map_option p_createdAt
     (payments (fst (on_message cfg0 ((env0 7)\<lparr>expiryTime := 8\<rparr>) 7
        (Some (ascii ''Coffee order'')) st_description)) pid0) = Some 7 \<and>
   map_option expiresAt
     (payments (fst (on_message cfg0 ((env0 7)\<lparr>expiryTime := 8\<rparr>) 7
        (Some (ascii ''Coffee order'')) st_description)) pid0) = Some (Some 86400008) \<and>
   reachable cfg0 st_description_again \<and>
   map_option step (users st_description_again 7) = Some Step_payment_description \<and>
   map_option tempData (users st_description_again 7)
     = Some \<lparr>businessName = None, td_amount = Some (Finite 300)\<rparr> \<and>
   payments st_description_again = [pid0 \<mapsto> coffee] \<and>
   generatePaymentId (idTime (env0 7)) (randomBytes (env0 7)) = pid0 \<and>
   payments (process cfg0 (say 7 (ascii ''Tea'')) st_description_again) = [pid0 \<mapsto> tea] \<and>
   tea \<noteq> coffee"
proof -
  have a: "map_option step (users st_description 7) = Some Step_payment_description \<and>
   map_option tempData (users st_description 7)
     = Some \<lparr>businessName = None, td_amount = Some (Finite 250)\<rparr> \<and>
   payments (fst (on_message cfg0 (env0 7) 7 (Some lit_english) st_description)) = Map.empty \<and>
   map_option step (users (fst (on_message cfg0 (env0 7) 7 (Some lit_english) st_description)) 7)
     = Some Step_payment_description \<and>
   map_option tempData
     (users (fst (on_message cfg0 (env0 7) 7 (Some lit_english) st_description)) 7)
     = Some \<lparr>businessName = None, td_amount = Some (Finite 250)\<rparr> \<and>
   map_option p_createdAt
     (payments (fst (on_message cfg0 ((env0 7)\<lparr>expiryTime := 8\<rparr>) 7
        (Some (ascii ''Coffee order'')) st_description)) pid0) = Some 7 \<and>
   map_option expiresAt
     (payments (fst (on_message cfg0 ((env0 7)\<lparr>expiryTime := 8\<rparr>) 7
        (Some (ascii ''Coffee order'')) st_description)) pid0) = Some (Some 86400008)"
    using trim_coffee pid0_eq
    by (simp add: scenario_defs st_description_def)
  have b: "map_option step (users st_description_again 7) = Some Step_payment_description \<and>
   map_option tempData (users st_description_again 7)
     = Some \<lparr>businessName = None, td_amount = Some (Finite 300)\<rparr> \<and>
   payments st_description_again = [pid0 \<mapsto> coffee]"
    by (simp add: st_description_again_def session_def)
  have c: "generatePaymentId (idTime (env0 7)) (randomBytes (env0 7)) = pid0"
    using pid0_eq by (simp add: env0_def)
  have d: "payments (process cfg0 (say 7 (ascii ''Tea'')) st_description_again)
             = [pid0 \<mapsto> tea]"
    using trim_tea pid0_eq
    by (simp add: scenario_defs st_description_again_def tea_def)
  have e: "tea \<noteq> coffee" by (simp add: tea_def coffee_def)
  show ?thesis using a b c d e reachable_st_description_again by blast
qed



section \<open>The amount validation\<close>

lemma digit_chars:
  "isDigit c \<Longrightarrow> c \<noteq> 0x2B \<and> c \<noteq> 0x2D \<and> c \<noteq> 0x2E \<and> c \<noteq> 0x65 \<and> c \<noteq> 0x45 \<and> c \<noteq> 0x49"
  by (auto simp: isDigit_def)

lemma takeSign_signOf: "takeSign t = (signOf t = [0x2D], drop (length (signOf t)) t)"
  by (auto simp: takeSign_def signOf_def split: list.splits)

lemma signOf_cases: "signOf t = [] \<or> signOf t = [0x2B] \<or> signOf t = [0x2D]"
  by (auto simp: signOf_def split: list.splits)

lemma signOf_prefix: "signOf t @ drop (length (signOf t)) t = t"
  by (auto simp: signOf_def split: list.splits)

lemma exponentPart_scan: "exponentPart t = exponentValue (scanExponent t)"
proof (cases t)
  case Nil
  then show ?thesis by (simp add: exponentPart_def exponentValue_def scanExponent_def)
next
  case (Cons c r)
  let ?ds = "takeWhile isDigit (drop (length (signOf r)) r)"
  show ?thesis
  proof (cases "(c = 0x65 \<or> c = 0x45) \<and> ?ds \<noteq> []")
    case False
    then show ?thesis
      by (auto simp: Cons exponentPart_def exponentValue_def scanExponent_def takeSign_signOf)
  next
    case True
    then obtain d ds' where ds: "?ds = d # ds'" by (cases ?ds) auto
    then have dd: "isDigit d" by (metis list.set_intros(1) set_takeWhileD)
    note dc = digit_chars[OF dd]
    from signOf_cases[of r] show ?thesis
    proof (elim disjE)
      assume s: "signOf r = []"
      then show ?thesis using True ds dc
        by (simp add: Cons exponentPart_def exponentValue_def scanExponent_def takeSign_signOf)
    next
      assume s: "signOf r = [0x2B]"
      then show ?thesis using True ds dc
        by (simp add: Cons exponentPart_def exponentValue_def scanExponent_def takeSign_signOf)
    next
      assume s: "signOf r = [0x2D]"
      then show ?thesis using True ds dc
        by (simp add: Cons exponentPart_def exponentValue_def scanExponent_def takeSign_signOf)
    qed
  qed
qed

lemma scanFraction_tl:
  "(case t2 of [] \<Rightarrow> ([], t2)
    | c # r \<Rightarrow> if c = 0x2E then (takeWhile isDigit r, dropWhile isDigit r) else ([], t2))
   = (tl (scanFraction t2), drop (length (scanFraction t2)) t2)"
proof (cases t2)
  case Nil
  then show ?thesis by (simp add: scanFraction_def)
next
  case (Cons c r)
  have "drop (length (takeWhile isDigit r)) r = dropWhile isDigit r"
    by (metis append_eq_conv_conj takeWhile_dropWhile_id)
  then show ?thesis by (simp add: Cons scanFraction_def)
qed

lemma parseFloat_scan:
  "parseFloat s =
     (let t = dropWhile isWhiteSpace s; (sg, ip, fr, ex) = scanLiteral t
      in if startsWith (drop (length sg) t) (ascii ''Infinity'')
         then (if sg = [0x2D] then NegInf else PosInf)
         else if ip = [] \<and> length fr < 2 then NaN
         else toDouble (literalValue sg ip fr ex))"
proof -
  let ?t = "dropWhile isWhiteSpace s"
  let ?t1 = "drop (length (signOf ?t)) ?t"
  let ?t2 = "dropWhile isDigit ?t1"
  have len: "(tl (scanFraction ?t2) = []) = (length (scanFraction ?t2) < 2)"
    by (cases "scanFraction ?t2"; cases "tl (scanFraction ?t2)") auto
  show ?thesis
    unfolding parseFloat_def scanLiteral_def takeSign_signOf scanFraction_tl exponentPart_scan
      literalValue_def Let_def split_conv len
    by simp
qed

lemma drop_takeWhile: "drop (length (takeWhile P xs)) xs = dropWhile P xs"
  by (metis append_eq_conv_conj takeWhile_dropWhile_id)

lemma scanFraction_prefix: "scanFraction t @ drop (length (scanFraction t)) t = t"
  by (auto simp: scanFraction_def drop_takeWhile split: list.splits)

lemma scanExponent_prefix: "scanExponent t @ drop (length (scanExponent t)) t = t"
proof (cases t)
  case Nil
  then show ?thesis by (simp add: scanExponent_def)
next
  case (Cons c r)
  let ?r1 = "drop (length (signOf r)) r"
  let ?ds = "takeWhile isDigit ?r1"
  have "drop (length ?ds) ?r1 = dropWhile isDigit ?r1" by (rule drop_takeWhile)
  then have "?ds @ drop (length ?ds) ?r1 = ?r1" by simp
  then have "signOf r @ ?ds @ drop (length ?ds) ?r1 = r" by (simp add: signOf_prefix)
  moreover have "drop (length ?ds) ?r1 = drop (length ?ds + length (signOf r)) r" by simp
  moreover have "drop (length ?ds) ?r1 = drop (length (signOf r) + length ?ds) r"
    by (simp add: add.commute)
  ultimately have f: "signOf r @ ?ds @ drop (length ?ds + length (signOf r)) r = r"
    "signOf r @ ?ds @ drop (length (signOf r) + length ?ds) r = r"
    by simp_all
  show ?thesis using f by (simp add: Cons scanExponent_def)
qed

lemma isSign_signOf: "isSign (signOf t)"
  using signOf_cases[of t] by (simp add: isSign_def)

lemma isFraction_scan: "isFraction (scanFraction t)"
  by (auto simp: isFraction_def scanFraction_def list_all_iff dest: set_takeWhileD
        split: list.splits)

lemma isExponent_scan: "isExponent (scanExponent t)"
proof (cases t)
  case Nil
  then show ?thesis by (simp add: scanExponent_def isExponent_def)
next
  case (Cons c r)
  let ?ds = "takeWhile isDigit (drop (length (signOf r)) r)"
  have d: "list_all isDigit ?ds" by (auto simp: list_all_iff dest: set_takeWhileD)
  show ?thesis
  proof (cases "(c = 0x65 \<or> c = 0x45) \<and> ?ds \<noteq> []")
    case True
    then have "scanExponent t = c # signOf r @ ?ds" by (simp add: Cons scanExponent_def)
    then show ?thesis using True d isSign_signOf[of r] unfolding isExponent_def by blast
  next
    case False
    then have "scanExponent t = []" by (auto simp: Cons scanExponent_def)
    then show ?thesis by (simp add: isExponent_def)
  qed
qed

text \<open>What the scanner reads is a literal, when it has a digit.\<close>

lemma scanLiteral_literal:
  assumes "scanLiteral t = (sg, ip, fr, ex)" and "ip \<noteq> [] \<or> 2 \<le> length fr"
  shows "decimalLiteral sg ip fr ex"
    and "t = sg @ ip @ fr @ ex @ drop (length (sg @ ip @ fr @ ex)) t"
proof -
  let ?t1 = "drop (length sg) t"
  let ?t2 = "dropWhile isDigit ?t1"
  let ?t3 = "drop (length fr) ?t2"
  have sg: "sg = signOf t" and ip: "ip = takeWhile isDigit ?t1"
    and fr: "fr = scanFraction ?t2" and ex: "ex = scanExponent ?t3"
    using assms(1) by (auto simp: scanLiteral_def Let_def)
  have "list_all isDigit ip" unfolding ip by (auto simp: list_all_iff dest: set_takeWhileD)
  then show "decimalLiteral sg ip fr ex"
    using assms(2) isSign_signOf[of t] isFraction_scan[of ?t2] isExponent_scan[of ?t3]
    by (simp add: decimalLiteral_def sg[symmetric] fr[symmetric] ex[symmetric])
  have a: "t = sg @ ?t1" using signOf_prefix[of t] by (simp add: sg)
  have b: "?t1 = ip @ ?t2" by (simp add: ip)
  have c: "?t2 = fr @ ?t3" using scanFraction_prefix[of ?t2] by (simp add: fr)
  have d: "?t3 = ex @ drop (length ex) ?t3" using scanExponent_prefix[of ?t3] by (simp add: ex)
  have e: "drop (length ex) ?t3 = drop (length (sg @ ip @ fr @ ex)) t"
  proof -
    have "?t2 = drop (length ip) ?t1" unfolding ip by (rule drop_takeWhile[symmetric])
    then have "drop (length ex) ?t3 =
        drop (length ex) (drop (length fr) (drop (length ip) (drop (length sg) t)))"
      by simp
    also have "\<dots> = drop (length ex + (length fr + (length ip + length sg))) t"
      by (simp only: drop_drop)
    also have "\<dots> = drop (length (sg @ ip @ fr @ ex)) t"
      by (simp add: add.commute add.left_commute)
    finally show ?thesis .
  qed
  show "t = sg @ ip @ fr @ ex @ drop (length (sg @ ip @ fr @ ex)) t"
    using a b c d e by metis
qed

lemma signOf_literal:
  assumes "isSign sg" and "u \<noteq> []" and "isDigit (hd u) \<or> hd u = 0x2E"
  shows "signOf (sg @ u) = sg"
proof -
  obtain c u' where u: "u = c # u'" using assms(2) by (cases u) auto
  have c: "c \<noteq> 0x2B \<and> c \<noteq> 0x2D" using assms(3) digit_chars[of c] by (auto simp: u)
  show ?thesis using assms(1) c by (auto simp: isSign_def signOf_def u)
qed

lemma takeWhile_digits_append:
  "list_all isDigit ds \<Longrightarrow> takeWhile isDigit (ds @ r) = ds @ takeWhile isDigit r"
  by (simp add: list_all_iff)

lemma dropWhile_digits_append:
  "list_all isDigit ds \<Longrightarrow> dropWhile isDigit (ds @ r) = dropWhile isDigit r"
  by (simp add: list_all_iff)

lemma scanExponent_literal:
  assumes "isExponent ex" and "ex \<noteq> []"
  shows "\<exists>m. scanExponent (ex @ r) = ex @ m"
proof -
  from assms obtain c sg ds where ex: "ex = c # sg @ ds" and c: "c = 0x65 \<or> c = 0x45"
    and sg: "isSign sg" and ds: "ds \<noteq> []" "list_all isDigit ds"
    by (auto simp: isExponent_def)
  have hd: "isDigit (hd (ds @ r))" using ds by (cases ds) auto
  have s: "signOf (sg @ ds @ r) = sg"
    using signOf_literal[OF sg, of "ds @ r"] ds hd by simp
  have t: "takeWhile isDigit (ds @ r) = ds @ takeWhile isDigit r"
    by (rule takeWhile_digits_append[OF ds(2)])
  show ?thesis using c ds by (simp add: ex scanExponent_def s t)
qed

lemma scanFraction_not_dot: "u \<noteq> [] \<Longrightarrow> hd u \<noteq> 0x2E \<Longrightarrow> scanFraction (u @ r) = []"
  by (cases u) (auto simp: scanFraction_def)

lemma takeWhile_not_digit: "u \<noteq> [] \<Longrightarrow> \<not> isDigit (hd u) \<Longrightarrow> takeWhile isDigit (u @ r) = []"
  by (cases u) auto

lemma dropWhile_not_digit: "u \<noteq> [] \<Longrightarrow> \<not> isDigit (hd u) \<Longrightarrow> dropWhile isDigit (u @ r) = u @ r"
  by (cases u) auto

lemma exponent_head:
  assumes "isExponent ex" and "ex \<noteq> []"
  shows "\<not> isDigit (hd ex)" and "hd ex \<noteq> 0x2E"
proof -
  from assms obtain c r where ex: "ex = c # r" and c: "c = 0x65 \<or> c = 0x45"
    by (auto simp: isExponent_def)
  show "\<not> isDigit (hd ex)" using c digit_chars[of c] by (auto simp: ex)
  show "hd ex \<noteq> 0x2E" using c by (auto simp: ex)
qed

text \<open>Every literal at the head of a string is a prefix of the one the scanner reads.\<close>

lemma literal_is_prefix:
  assumes t: "t = sg' @ ip' @ fr' @ ex' @ rest'"
    and lit: "decimalLiteral sg' ip' fr' ex'"
    and sc: "scanLiteral t = (sg, ip, fr, ex)"
  shows "(ip \<noteq> [] \<or> 2 \<le> length fr) \<and>
         (\<exists>m. sg @ ip @ fr @ ex = (sg' @ ip' @ fr' @ ex') @ m \<and>
              (m = [] \<longrightarrow> sg' = sg \<and> ip' = ip \<and> fr' = fr \<and> ex' = ex))"
proof -
  from lit have sg': "isSign sg'" and ip': "list_all isDigit ip'" and fr': "isFraction fr'"
    and ex': "isExponent ex'" and dg: "ip' \<noteq> [] \<or> 2 \<le> length fr'"
    by (simp_all add: decimalLiteral_def)
  let ?u = "ip' @ fr' @ ex' @ rest'"
  have frhd: "fr' \<noteq> [] \<Longrightarrow> hd fr' = 0x2E" using fr' by (auto simp: isFraction_def)
  have u: "?u \<noteq> []" using dg by auto
  have hdu: "isDigit (hd ?u) \<or> hd ?u = 0x2E"
  proof (cases ip')
    case Nil
    then have "fr' \<noteq> []" using dg by auto
    then show ?thesis using frhd Nil by (cases fr') auto
  next
    case (Cons d ds)
    then show ?thesis using ip' by simp
  qed
  have s1: "signOf t = sg'" unfolding t by (rule signOf_literal[OF sg' u hdu])
  let ?t2 = "dropWhile isDigit ?u"
  have sg: "sg = sg'" and ip: "ip = takeWhile isDigit ?u"
    and fr: "fr = scanFraction ?t2" and ex: "ex = scanExponent (drop (length fr) ?t2)"
    using sc s1 by (auto simp: scanLiteral_def Let_def t)
  have ip2: "ip = ip' @ takeWhile isDigit (fr' @ ex' @ rest')"
    unfolding ip by (rule takeWhile_digits_append[OF ip'])
  have t2: "?t2 = dropWhile isDigit (fr' @ ex' @ rest')"
    by (rule dropWhile_digits_append[OF ip'])
  show ?thesis
  proof (cases "fr' = []")
    case frN: True
    then have ipne: "ip' \<noteq> []" using dg by simp
    show ?thesis
    proof (cases "ex' = []")
      case exN: True
      let ?k = "takeWhile isDigit rest'"
      have a: "ip = ip' @ ?k" using ip2 frN exN by simp
      have "sg @ ip @ fr @ ex = (sg' @ ip' @ fr' @ ex') @ (?k @ fr @ ex)"
        using a sg frN exN by simp
      moreover have "?k @ fr @ ex = [] \<longrightarrow> sg' = sg \<and> ip' = ip \<and> fr' = fr \<and> ex' = ex"
        using a sg frN exN by simp
      moreover have "ip \<noteq> []" using a ipne by simp
      ultimately show ?thesis by blast
    next
      case exC: False
      note h = exponent_head[OF ex' exC]
      have a: "ip = ip'" using ip2 frN takeWhile_not_digit[OF exC h(1)] by simp
      have b: "?t2 = ex' @ rest'" using t2 frN dropWhile_not_digit[OF exC h(1)] by simp
      have c: "fr = []" using fr b scanFraction_not_dot[OF exC h(2)] by simp
      obtain m where m: "scanExponent (ex' @ rest') = ex' @ m"
        using scanExponent_literal[OF ex' exC] by blast
      have d: "ex = ex' @ m" using ex b c m by simp
      have "sg @ ip @ fr @ ex = (sg' @ ip' @ fr' @ ex') @ m" using a c d sg frN by simp
      moreover have "m = [] \<longrightarrow> sg' = sg \<and> ip' = ip \<and> fr' = fr \<and> ex' = ex"
        using a c d sg frN by simp
      moreover have "ip \<noteq> []" using a ipne by simp
      ultimately show ?thesis by blast
    qed
  next
    case frC: False
    then obtain fp where fp: "fr' = 0x2E # fp" and fpd: "list_all isDigit fp"
      using fr' by (auto simp: isFraction_def)
    have nd: "\<not> isDigit (hd fr')" using fp digit_chars[of "hd fr'"] by auto
    have a: "ip = ip'" using ip2 takeWhile_not_digit[OF frC nd] by simp
    have b: "?t2 = 0x2E # fp @ ex' @ rest'"
      using t2 dropWhile_not_digit[OF frC nd] by (simp add: fp)
    have c: "fr = 0x2E # fp @ takeWhile isDigit (ex' @ rest')"
      using fr b takeWhile_digits_append[OF fpd] by (simp add: scanFraction_def)
    have dgt: "ip \<noteq> [] \<or> 2 \<le> length fr"
      using dg a c fp by auto
    show ?thesis
    proof (cases "ex' = []")
      case exN: True
      let ?k = "takeWhile isDigit rest'"
      have c': "fr = fr' @ ?k" using c exN fp by simp
      have "sg @ ip @ fr @ ex = (sg' @ ip' @ fr' @ ex') @ (?k @ ex)"
        using a c' sg exN by simp
      moreover have "?k @ ex = [] \<longrightarrow> sg' = sg \<and> ip' = ip \<and> fr' = fr \<and> ex' = ex"
        using a c' sg exN by simp
      ultimately show ?thesis using dgt by blast
    next
      case exC: False
      note h = exponent_head[OF ex' exC]
      have c': "fr = fr'" using c fp takeWhile_not_digit[OF exC h(1)] by simp
      have t3: "drop (length fr) ?t2 = ex' @ rest'" using b c' fp by simp
      obtain m where m: "scanExponent (ex' @ rest') = ex' @ m"
        using scanExponent_literal[OF ex' exC] by blast
      have d: "ex = ex' @ m" using ex t3 m by simp
      have "sg @ ip @ fr @ ex = (sg' @ ip' @ fr' @ ex') @ m" using a c' d sg by simp
      moreover have "m = [] \<longrightarrow> sg' = sg \<and> ip' = ip \<and> fr' = fr \<and> ex' = ex"
        using a c' d sg by simp
      ultimately show ?thesis using dgt by blast
    qed
  qed
qed

lemma literal_not_infinity:
  assumes "scanLiteral t = (sg, ip, fr, ex)" and "ip \<noteq> [] \<or> 2 \<le> length fr"
  shows "\<not> startsWith (drop (length sg) t) (ascii ''Infinity'')"
proof
  assume inf: "startsWith (drop (length sg) t) (ascii ''Infinity'')"
  let ?t1 = "drop (length sg) t"
  have sg: "sg = signOf t" and ip: "ip = takeWhile isDigit ?t1"
    and fr: "fr = scanFraction (dropWhile isDigit ?t1)"
    using assms(1) by (auto simp: scanLiteral_def Let_def)
  from inf obtain r where r: "?t1 = 0x49 # r"
    by (cases ?t1) (auto simp: startsWith_def ascii_def)
  have "\<not> isDigit 0x49" by (simp add: isDigit_def)
  then have "ip = []" "fr = []"
    unfolding ip fr r by (simp_all add: scanFraction_def)
  then show False using assms(2) by simp
qed

text \<open>
  Claim C7, as amended. The amount validation accepts a string if and only if the
  string, after its leading white space, begins with a decimal literal and the longest
  literal it begins with has a value that, rounded to a double, is at least 1 and at
  most 50000. What follows the literal is not looked at; a string that begins with no
  literal is rejected.
\<close>
theorem validateAmount_leading_literal:
  "validateAmount s \<longleftrightarrow>
     (\<exists>sg ip fr ex rest.
        dropWhile isWhiteSpace s = sg @ ip @ fr @ ex @ rest \<and> decimalLiteral sg ip fr ex \<and>
        (\<forall>sg' ip' fr' ex' rest'.
           dropWhile isWhiteSpace s = sg' @ ip' @ fr' @ ex' @ rest' \<and>
           decimalLiteral sg' ip' fr' ex' \<longrightarrow> length rest \<le> length rest') \<and>
        js_le (Finite 1) (toDouble (literalValue sg ip fr ex)) \<and>
        js_le (toDouble (literalValue sg ip fr ex)) (Finite 50000))"
  (is "?L \<longleftrightarrow> ?R")
proof -
  let ?t = "dropWhile isWhiteSpace s"
  obtain sg ip fr ex where sc: "scanLiteral ?t = (sg, ip, fr, ex)"
    by (cases "scanLiteral ?t") auto
  let ?lit = "sg @ ip @ fr @ ex"
  let ?v = "toDouble (literalValue sg ip fr ex)"
  have pf: "parseFloat s =
      (if startsWith (drop (length sg) ?t) (ascii ''Infinity'')
       then (if sg = [0x2D] then NegInf else PosInf)
       else if ip = [] \<and> length fr < 2 then NaN else ?v)"
    by (simp add: parseFloat_scan sc Let_def)
  show ?thesis
  proof
    assume L: ?L
    have fin: "\<not> startsWith (drop (length sg) ?t) (ascii ''Infinity'')"
      using L pf by (auto simp: validateAmount_def Let_def isNaN_def split: if_splits)
    have dg: "ip \<noteq> [] \<or> 2 \<le> length fr"
      using L pf fin by (auto simp: validateAmount_def Let_def isNaN_def split: if_splits)
    have val: "parseFloat s = ?v" using pf fin dg by auto
    note sl = scanLiteral_literal[OF sc dg]
    have longest: "length (drop (length ?lit) ?t) \<le> length rest'"
      if d: "?t = sg' @ ip' @ fr' @ ex' @ rest'" and l: "decimalLiteral sg' ip' fr' ex'"
      for sg' ip' fr' ex' rest'
    proof -
      from literal_is_prefix[OF d l sc] obtain m
        where m: "?lit = (sg' @ ip' @ fr' @ ex') @ m" by blast
      have "length ?t = length (sg' @ ip' @ fr' @ ex') + length rest'"
        by (subst d) simp
      moreover have "length (sg' @ ip' @ fr' @ ex') \<le> length ?lit"
        by (subst m) simp
      ultimately show ?thesis by simp
    qed
    have rg: "js_le (Finite 1) ?v" "js_le ?v (Finite 50000)"
      using L val by (simp_all add: validateAmount_def Let_def)
    have R: "?t = sg @ ip @ fr @ ex @ drop (length ?lit) ?t \<and> decimalLiteral sg ip fr ex \<and>
        (\<forall>sg' ip' fr' ex' rest'.
           ?t = sg' @ ip' @ fr' @ ex' @ rest' \<and> decimalLiteral sg' ip' fr' ex'
             \<longrightarrow> length (drop (length ?lit) ?t) \<le> length rest') \<and>
        js_le (Finite 1) ?v \<and> js_le ?v (Finite 50000)"
    proof (intro conjI allI impI)
      show "?t = sg @ ip @ fr @ ex @ drop (length ?lit) ?t" by (rule sl(2))
      show "decimalLiteral sg ip fr ex" by (rule sl(1))
      show "js_le (Finite 1) ?v" by (rule rg(1))
      show "js_le ?v (Finite 50000)" by (rule rg(2))
      fix sg' ip' fr' ex' rest'
      assume "?t = sg' @ ip' @ fr' @ ex' @ rest' \<and> decimalLiteral sg' ip' fr' ex'"
      then show "length (drop (length ?lit) ?t) \<le> length rest'"
        using longest by (elim conjE)
    qed
    show ?R
      apply (rule exI[of _ sg], rule exI[of _ ip], rule exI[of _ fr], rule exI[of _ ex])
      apply (rule exI[of _ "drop (length ?lit) ?t"])
      apply (rule R)
      done
  next
    assume ?R
    then obtain sg' ip' fr' ex' rest' where d: "?t = sg' @ ip' @ fr' @ ex' @ rest'"
      and l: "decimalLiteral sg' ip' fr' ex'"
      and mxa: "\<forall>a b c d r. ?t = a @ b @ c @ d @ r \<and> decimalLiteral a b c d \<longrightarrow>
                 length rest' \<le> length r"
      and rg: "js_le (Finite 1) (toDouble (literalValue sg' ip' fr' ex'))"
              "js_le (toDouble (literalValue sg' ip' fr' ex')) (Finite 50000)"
      by (elim exE conjE) (rule that)
    have mx: "length rest' \<le> length r" if "?t = a @ b @ c @ d @ r" "decimalLiteral a b c d"
      for a b c d r
      using mxa that by (elim allE[of _ a] allE[of _ b] allE[of _ c] allE[of _ d] allE[of _ r]) simp
    from literal_is_prefix[OF d l sc] obtain m
      where dg: "ip \<noteq> [] \<or> 2 \<le> length fr"
        and m: "?lit = (sg' @ ip' @ fr' @ ex') @ m"
        and eq: "m = [] \<longrightarrow> sg' = sg \<and> ip' = ip \<and> fr' = fr \<and> ex' = ex"
      by blast
    note sl = scanLiteral_literal[OF sc dg]
    let ?D = "sg' @ ip' @ fr' @ ex'"
    have "length rest' \<le> length (drop (length ?lit) ?t)" by (rule mx[OF sl(2) sl(1)])
    then have f1: "length rest' \<le> length ?t - length ?lit" by simp
    have f2: "length ?t = length ?D + length rest'" by (subst d) simp
    have f3: "length ?lit \<le> length ?t" using arg_cong[OF sl(2), of length] by simp
    have f4: "length ?lit = length ?D + length m" by (subst m) simp
    from f1 f2 f3 f4 have "length m = 0" by arith
    then have "m = []" by simp
    then have same: "sg' = sg \<and> ip' = ip \<and> fr' = fr \<and> ex' = ex" using eq by simp
    have val: "parseFloat s = ?v" using pf literal_not_infinity[OF sc dg] dg by auto
    obtain x where x: "?v = Finite x" using rg same by (cases ?v) auto
    show ?L using rg same val x by (simp add: validateAmount_def Let_def isNaN_def)
  qed
qed

lemma literal_chars:
  assumes "decimalLiteral sg ip fr ex" and "c \<in> set (sg @ ip @ fr @ ex)"
  shows "isDigit c \<or> c = 0x2B \<or> c = 0x2D \<or> c = 0x2E \<or> c = 0x65 \<or> c = 0x45"
  using assms
  by (auto simp: decimalLiteral_def isSign_def isFraction_def isExponent_def list_all_iff)

lemma not_numeric_12abc: "\<not> numeric (ascii ''12abc'')"
proof
  assume "numeric (ascii ''12abc'')"
  then obtain sg ip fr ex where s: "ascii ''12abc'' = sg @ ip @ fr @ ex"
    and l: "decimalLiteral sg ip fr ex" by (auto simp: numeric_def)
  have "0x61 \<in> set (ascii ''12abc'')" by (simp add: ascii_def)
  then have "0x61 \<in> set (sg @ ip @ fr @ ex)" using s by simp
  from literal_chars[OF l this] show False by (simp add: isDigit_def)
qed

text \<open>
  Claim C7 as stated fails: \<^verbatim>\<open>12abc\<close> is accepted and is not a number.
\<close>
theorem validateAmount_trailing_text_counterexample:
  "validateAmount (ascii ''12abc'') \<and> \<not> numeric (ascii ''12abc'')"
proof -
  have "validateAmount (ascii ''12abc'')" by code_simp
  then show ?thesis using not_numeric_12abc by simp
qed

text \<open>An amount followed by its currency.\<close>

theorem validateAmount_leading_literal_witness:
  "validateAmount (ascii ''250 SAR'') \<and>
   (\<exists>sg ip fr ex rest.
      dropWhile isWhiteSpace (ascii ''250 SAR'') = sg @ ip @ fr @ ex @ rest \<and>
      decimalLiteral sg ip fr ex \<and>
      (\<forall>sg' ip' fr' ex' rest'.
         dropWhile isWhiteSpace (ascii ''250 SAR'') = sg' @ ip' @ fr' @ ex' @ rest' \<and>
         decimalLiteral sg' ip' fr' ex' \<longrightarrow> length rest \<le> length rest') \<and>
      js_le (Finite 1) (toDouble (literalValue sg ip fr ex)) \<and>
      js_le (toDouble (literalValue sg ip fr ex)) (Finite 50000))"
proof -
  have v: "validateAmount (ascii ''250 SAR'')" by code_simp
  note r = iffD1[OF validateAmount_leading_literal v]
  show ?thesis by (rule conjI[OF v r])
qed

end
